theory Spec2Isabelle
  imports Complex_Main "HOL-Library.Sublist"
begin

section \<open>Values shared by the manifest reader and the task queue\<close>

text \<open>
  Manifests, registry entries and grading outcomes are JSON documents that Python holds
  as \<open>None\<close>, \<open>bool\<close>, \<open>int\<close>, \<open>float\<close>, \<open>str\<close>, \<open>list\<close> and \<open>dict\<close>
  values. A \<open>dict\<close> is the list of its items in insertion order (its keys are distinct).
  A finite float is kept as mantissa and binary exponent; only its test against zero is
  ever used.
\<close>

datatype json =
    JNull
  | JBool bool
  | JInt int
  | JFloat int int
  | JStr string
  | JList "json list"
  | JObj "(string \<times> json) list"

type_synonym pydict = "(string \<times> json) list"

text \<open>Python's truth value of an object, as \<open>or\<close>, \<open>not\<close> and \<open>if\<close> use it.\<close>

fun truthy :: "json \<Rightarrow> bool" where
  "truthy JNull = False"
| "truthy (JBool b) = b"
| "truthy (JInt i) = (i \<noteq> 0)"
| "truthy (JFloat m e) = (m \<noteq> 0)"
| "truthy (JStr s) = (s \<noteq> [])"
| "truthy (JList xs) = (xs \<noteq> [])"
| "truthy (JObj kv) = (kv \<noteq> [])"

text \<open>\<open>d.get(k)\<close>: the value stored under \<open>k\<close>, and \<open>None\<close> when there is none.\<close>

definition dict_get :: "pydict \<Rightarrow> string \<Rightarrow> json" where
  "dict_get d k = (case map_of d k of None \<Rightarrow> JNull | Some v \<Rightarrow> v)"

text \<open>Decimal text of a natural number, as \<open>str\<close> and f-strings print it.\<close>

definition digit_char :: "nat \<Rightarrow> char" where
  "digit_char n = ''0123456789'' ! (n mod 10)"

fun str_nat :: "nat \<Rightarrow> string" where
  "str_nat n = (if n < 10 then [digit_char n] else str_nat (n div 10) @ [digit_char n])"

declare str_nat.simps [simp del]

text \<open>
  A \<open>pathlib.Path\<close> is kept as its text, a clock reading of \<open>time.time()\<close> as an opaque
  number handed in by the caller of each operation.
\<close>

type_synonym path = string
type_synonym timestamp = rat

text \<open>
  \<open>split_slash [] s\<close> is \<open>s.split("/")\<close>: the pieces of \<open>s\<close> between the slashes;
  \<open>cur\<close> holds the piece being read, last character first.
\<close>

fun split_slash :: "string \<Rightarrow> string \<Rightarrow> string list" where
  "split_slash cur [] = [rev cur]"
| "split_slash cur (c # cs) =
     (if c = CHR ''/'' then rev cur # split_slash [] cs else split_slash (c # cur) cs)"

text \<open>
  \<open>str(Path(s))\<close> on POSIX: the root is \<open>//\<close> when \<open>s\<close> starts with exactly two
  slashes, \<open>/\<close> when it starts with one or with three and more, and empty otherwise;
  empty components and \<open>.\<close> are dropped (\<open>..\<close> is kept), the rest is joined by single
  slashes, and the path with no root and no component is \<open>.\<close>.
\<close>

definition path_root :: "string \<Rightarrow> string" where
  "path_root s =
     (if take 2 s = ''//'' \<and> take 3 s \<noteq> ''///'' then ''//''
      else if take 1 s = ''/'' then ''/'' else [])"

fun join_slash :: "string list \<Rightarrow> string" where
  "join_slash [] = []"
| "join_slash [c] = c"
| "join_slash (c # cs) = c @ CHR ''/'' # join_slash cs"

definition path_str :: "string \<Rightarrow> path" where
  "path_str s =
     (let r = path_root s; ps = filter (\<lambda>c. c \<noteq> [] \<and> c \<noteq> ''.'') (split_slash [] s)
      in if r = [] \<and> ps = [] then ''.'' else r @ join_slash ps)"

section \<open>Task specifications (datasets/tasks.py)\<close>

text \<open>
  \<open>TaskSpec\<close>. The field \<open>id\<close> is \<open>spec_id\<close> here. \<open>_parse_tasks\<close> stores whatever
  JSON value the manifest gives as instruction, so the field holds a JSON value.
\<close>

record task_spec =
  spec_id :: string
  instruction :: json
  input_path :: "path option"
  answer_path :: "path option"
  meta :: pydict

section \<open>The task queue (mcp/tools/task_queue.py)\<close>

datatype item_status = Pending | InProgress | Completed

text \<open>The record \<open>rec\<close> that \<open>submit_answer\<close> writes to disk and keeps on the item.\<close>

record result_record =
  rec_task_id :: nat
  rec_spec_id :: string
  rec_output_path :: "string option"
  rec_grade :: "pydict option"
  rec_submitted_at :: timestamp

text \<open>\<open>QueueItem\<close>; its field \<open>id\<close> is \<open>item_id\<close> here.\<close>

record queue_item =
  item_id :: nat
  spec :: task_spec
  status :: item_status
  started_at :: "timestamp option"
  finished_at :: "timestamp option"
  result :: "result_record option"

text \<open>
  What a call of the grading callback does: it returns a dict, it raises an exception
  that \<open>except Exception\<close> catches (with the text \<open>str(e)\<close>), or it raises one that
  the handler does not catch (\<open>KeyboardInterrupt\<close>, \<open>SystemExit\<close>), which leaves
  \<open>submit_answer\<close>.
\<close>

datatype grader_outcome = Returns pydict | Raises string | Aborts

type_synonym grader = "task_spec \<Rightarrow> path \<Rightarrow> grader_outcome"

text \<open>
  \<open>TaskQueue\<close>. \<open>results_dir\<close> holds the result files that the queue has written,
  by file name; writing a file is taken to succeed. \<open>log_progress\<close> only prints and is
  left out; the lock makes each operation one step of the state.
\<close>

record task_queue =
  items :: "queue_item list"
  in_progress :: "nat set"
  completed :: nat
  results_dir :: "string \<rightharpoonup> result_record"
  grader :: "grader option"

definition new_item :: "nat \<times> task_spec \<Rightarrow> queue_item" where
  "new_item p = \<lparr>item_id = fst p, spec = snd p, status = Pending,
                  started_at = None, finished_at = None, result = None\<rparr>"

definition init_queue :: "task_spec list \<Rightarrow> grader option \<Rightarrow> task_queue" where
  "init_queue specs g =
     \<lparr>items = map new_item (enumerate 0 specs), in_progress = {}, completed = 0,
      results_dir = Map.empty, grader = g\<rparr>"

definition pending_count :: "task_queue \<Rightarrow> nat" where
  "pending_count q = length (filter (\<lambda>it. status it = Pending) (items q))"

definition completed_count :: "task_queue \<Rightarrow> nat" where
  "completed_count q = completed q"

subsection \<open>next_task\<close>

text \<open>The dict that \<open>next_task\<close> returns: these five keys and no other.\<close>

record task_view =
  view_task_id :: nat
  view_id :: string
  view_instruction :: json
  view_input :: "string option"
  view_meta :: pydict

definition view_of :: "queue_item \<Rightarrow> task_view" where
  "view_of it =
     \<lparr>view_task_id = item_id it, view_id = spec_id (spec it),
      view_instruction = instruction (spec it), view_input = input_path (spec it),
      view_meta = meta (spec it)\<rparr>"

definition lease :: "timestamp \<Rightarrow> queue_item \<Rightarrow> queue_item" where
  "lease now it = it\<lparr>status := InProgress, started_at := Some now\<rparr>"

text \<open>
  The loop \<open>for it in self._items\<close> with its \<open>return\<close> inside: the leased item and the
  list after the update, or \<open>None\<close> when the loop runs to its end.
\<close>

fun lease_scan :: "timestamp \<Rightarrow> queue_item list \<Rightarrow> (queue_item \<times> queue_item list) option" where
  "lease_scan now [] = None"
| "lease_scan now (it # rest) =
     (if status it = Pending then Some (lease now it, lease now it # rest)
      else (case lease_scan now rest of
              None \<Rightarrow> None
            | Some (l, rest') \<Rightarrow> Some (l, it # rest')))"

definition next_task :: "timestamp \<Rightarrow> task_queue \<Rightarrow> task_view option \<times> task_queue" where
  "next_task now q =
     (case lease_scan now (items q) of
        None \<Rightarrow> (None, q)
      | Some (it, its) \<Rightarrow>
          (Some (view_of it),
           q\<lparr>items := its, in_progress := insert (item_id it) (in_progress q)\<rparr>))"

subsection \<open>submit_answer\<close>

text \<open>
  What \<open>submit_answer\<close> raises: \<open>ValueError\<close> for a task id out of range,
  \<open>RuntimeError\<close> for an item that is not in progress (with its status), and the
  exception of the callback that the handler does not catch.
\<close>

datatype queue_error =
    ValueError int
  | RuntimeError int item_status
  | GraderAbort

record ack =
  ack_ok :: bool
  ack_grade :: "pydict option"
  ack_completed :: nat
  ack_total :: nat

text \<open>\<open>Path(output_path) if output_path else None\<close>: an empty string counts as none.\<close>

definition p_out_of :: "string option \<Rightarrow> path option" where
  "p_out_of output_path =
     (case output_path of
        None \<Rightarrow> None
      | Some s \<Rightarrow> if s = [] then None else Some (path_str s))"

text \<open>The dict that stands for an exception of the callback; \<open>msg\<close> is \<open>str(e)\<close>.\<close>

definition grading_error :: "string \<Rightarrow> pydict" where
  "grading_error msg = [(''status'', JStr ''grading_error''), (''error'', JStr msg)]"

text \<open>
  The block under \<open># Optional grading\<close>: the dict \<open>grade\<close> after it, or \<open>None\<close> when an
  exception leaves the block. The callback is called only in the first branch.
\<close>

definition run_grader :: "grader option \<Rightarrow> task_spec \<Rightarrow> path option \<Rightarrow> pydict option" where
  "run_grader g s p_out =
     (case (g, p_out) of
        (Some f, Some p) \<Rightarrow>
          (case f s p of
             Returns d \<Rightarrow> Some d
           | Raises msg \<Rightarrow> Some (grading_error msg)
           | Aborts \<Rightarrow> None)
      | _ \<Rightarrow> Some [])"

text \<open>\<open>grade or None\<close>.\<close>

definition or_none :: "pydict \<Rightarrow> pydict option" where
  "or_none grade = (if grade = [] then None else Some grade)"

text \<open>\<open>f"task_{it.id:05d}.json"\<close>.\<close>

definition zfill :: "nat \<Rightarrow> string \<Rightarrow> string" where
  "zfill w s = replicate (w - length s) (CHR ''0'') @ s"

definition result_file :: "nat \<Rightarrow> string" where
  "result_file i = ''task_'' @ zfill 5 (str_nat i) @ ''.json''"

definition mark_completed :: "timestamp \<Rightarrow> result_record \<Rightarrow> queue_item \<Rightarrow> queue_item" where
  "mark_completed t_fin r it = it\<lparr>status := Completed, finished_at := Some t_fin, result := Some r\<rparr>"

text \<open>
  \<open>t_sub\<close> and \<open>t_fin\<close> are the two clock readings (\<open>submitted_at\<close>, \<open>finished_at\<close>).
  A raise leaves the state as it is: every assignment comes after the last raise.
\<close>

definition submit_answer ::
  "int \<Rightarrow> string option \<Rightarrow> timestamp \<Rightarrow> timestamp \<Rightarrow> task_queue \<Rightarrow> (queue_error + ack) \<times> task_queue" where
  "submit_answer task_id output_path t_sub t_fin q =
     (let p_out = p_out_of output_path in
      if task_id < 0 \<or> task_id \<ge> int (length (items q)) then (Inl (ValueError task_id), q)
      else
        let it = items q ! nat task_id in
        if status it \<noteq> InProgress then (Inl (RuntimeError task_id (status it)), q)
        else
          (case run_grader (grader q) (spec it) p_out of
             None \<Rightarrow> (Inl GraderAbort, q)
           | Some grade \<Rightarrow>
               let r = \<lparr>rec_task_id = item_id it, rec_spec_id = spec_id (spec it),
                        rec_output_path = p_out, rec_grade = or_none grade,
                        rec_submitted_at = t_sub\<rparr>;
                   q' = q\<lparr>items := (items q)[nat task_id := mark_completed t_fin r it],
                          in_progress := in_progress q - {item_id it},
                          completed := completed q + 1,
                          results_dir := (results_dir q)(result_file (item_id it) \<mapsto> r)\<rparr>
               in (Inr \<lparr>ack_ok = True, ack_grade = or_none grade,
                        ack_completed = completed q', ack_total = length (items q')\<rparr>, q')))"

subsection \<open>Sequences of operations\<close>

text \<open>
  The lock serialises the calls of all workers, so a concurrent run is a list of
  operations in the order in which they took the lock.
\<close>

datatype op = Lease timestamp | Submit int "string option" timestamp timestamp

datatype response = Leased "task_view option" | Submitted "queue_error + ack"

fun step :: "op \<Rightarrow> task_queue \<Rightarrow> response \<times> task_queue" where
  "step (Lease now) q = (Leased (fst (next_task now q)), snd (next_task now q))"
| "step (Submit task_id output_path t_sub t_fin) q =
     (Submitted (fst (submit_answer task_id output_path t_sub t_fin q)),
      snd (submit_answer task_id output_path t_sub t_fin q))"

text \<open>The states a run goes through, the first one included, and its responses.\<close>

fun trace :: "op list \<Rightarrow> task_queue \<Rightarrow> task_queue list" where
  "trace [] q = [q]"
| "trace (a # ops) q = q # trace ops (snd (step a q))"

fun responses :: "op list \<Rightarrow> task_queue \<Rightarrow> response list" where
  "responses [] q = []"
| "responses (a # ops) q = fst (step a q) # responses ops (snd (step a q))"

text \<open>The task ids handed out by the leases of a run, in order.\<close>

fun leased_ids :: "response list \<Rightarrow> nat list" where
  "leased_ids [] = []"
| "leased_ids (Leased (Some v) # rs) = view_task_id v # leased_ids rs"
| "leased_ids (_ # rs) = leased_ids rs"

fun lease_views :: "response list \<Rightarrow> task_view option list" where
  "lease_views [] = []"
| "lease_views (Leased v # rs) = v # lease_views rs"
| "lease_views (Submitted r # rs) = lease_views rs"

subsection \<open>Notions used to state the properties of the queue\<close>

text \<open>The ids of the items that are still pending.\<close>

definition pending_ids :: "queue_item list \<Rightarrow> nat list" where
  "pending_ids its = map item_id (filter (\<lambda>it. status it = Pending) its)"

text \<open>The order \<open>pending\<close>, \<open>in_progress\<close>, \<open>completed\<close> of the life cycle.\<close>

fun rank :: "item_status \<Rightarrow> nat" where
  "rank Pending = 0"
| "rank InProgress = 1"
| "rank Completed = 2"

text \<open>
  \<open>forward s s'\<close>: from state \<open>s\<close> to state \<open>s'\<close> no item has moved backward and the
  counter has not decreased.
\<close>

definition forward :: "task_queue \<Rightarrow> task_queue \<Rightarrow> bool" where
  "forward s s' =
     (list_all2 (\<lambda>a b. rank (status a) \<le> rank (status b)) (items s) (items s') \<and>
      completed s \<le> completed s')"

text \<open>
  \<open>enters i (s, s')\<close>: item \<open>i\<close> is not in progress in \<open>s\<close> and is in \<open>s'\<close>;
  \<open>entries i tr\<close> counts the steps of the run \<open>tr\<close> at which that happens.
\<close>

definition enters :: "nat \<Rightarrow> task_queue \<times> task_queue \<Rightarrow> bool" where
  "enters i p = (status (items (fst p) ! i) \<noteq> InProgress \<and> status (items (snd p) ! i) = InProgress)"

definition entries :: "nat \<Rightarrow> task_queue list \<Rightarrow> nat" where
  "entries i tr = length (filter (enters i) (zip tr (tl tr)))"

text \<open>
  \<open>one_stage a b\<close>: from status \<open>a\<close> to status \<open>b\<close> an item stays where it is or
  takes one stage of the life cycle, \<open>pending\<close> to \<open>in_progress\<close> or \<open>in_progress\<close> to
  \<open>completed\<close>; \<open>stepwise s s'\<close> says so of every item from state \<open>s\<close> to \<open>s'\<close>.
\<close>

definition one_stage :: "item_status \<Rightarrow> item_status \<Rightarrow> bool" where
  "one_stage a b = (b = a \<or> (a = Pending \<and> b = InProgress) \<or> (a = InProgress \<and> b = Completed))"

definition stepwise :: "task_queue \<Rightarrow> task_queue \<Rightarrow> bool" where
  "stepwise s s' = list_all2 (\<lambda>a b. one_stage (status a) (status b)) (items s) (items s')"

text \<open>The counter agrees with the number of completed items.\<close>

definition counted :: "task_queue \<Rightarrow> bool" where
  "counted q = (completed q = length (filter (\<lambda>it. status it = Completed) (items q)))"

text \<open>A task specification with its answer reference blanked.\<close>

definition hide_answer :: "task_spec \<Rightarrow> task_spec" where
  "hide_answer s = s\<lparr>answer_path := None\<rparr>"

text \<open>
  Two items that a worker cannot tell apart by leasing: same id, pending or not alike,
  and specifications that agree except for the answer reference.
\<close>

definition sim :: "queue_item \<Rightarrow> queue_item \<Rightarrow> bool" where
  "sim a b = (item_id a = item_id b \<and> (status a = Pending) = (status b = Pending) \<and>
              hide_answer (spec a) = hide_answer (spec b))"

text \<open>A queue of two tasks for the concrete runs below.\<close>

definition demo_specs :: "task_spec list" where
  "demo_specs =
     [\<lparr>spec_id = ''t1'', instruction = JStr ''do X'', input_path = Some ''/d/in1.csv'',
       answer_path = Some ''/d/ans1.csv'', meta = []\<rparr>,
      \<lparr>spec_id = ''t2'', instruction = JStr ''do Y'', input_path = None,
       answer_path = None, meta = [(''level'', JInt 2)]\<rparr>]"

text \<open>A run of both operations, with a rejected second submit and an unknown task id.\<close>

definition demo_ops :: "op list" where
  "demo_ops = [Lease 1, Submit 0 (Some ''o.csv'') 2 3, Submit 0 None 4 5, Lease 6, Submit 7 None 8 9]"

text \<open>
  A run with submits for an item that is still pending, before and after the other item
  is leased, and a second submit for a completed item.
\<close>

definition demo_ops_pending :: "op list" where
  "demo_ops_pending =
     [Submit 1 None 1 2, Lease 3, Submit 1 None 4 5, Submit 0 (Some ''o.csv'') 6 7,
      Submit 0 None 8 9, Lease 10, Submit 1 None 11 12]"

text \<open>The same two tasks with other answer references.\<close>

definition demo_specs' :: "task_spec list" where
  "demo_specs' =
     [\<lparr>spec_id = ''t1'', instruction = JStr ''do X'', input_path = Some ''/d/in1.csv'',
       answer_path = None, meta = []\<rparr>,
      \<lparr>spec_id = ''t2'', instruction = JStr ''do Y'', input_path = None,
       answer_path = Some ''/elsewhere/ans2.csv'', meta = [(''level'', JInt 2)]\<rparr>]"

text \<open>A grading callback that always raises, and one that always returns the empty dict.\<close>

definition failing_grader :: grader where
  "failing_grader s p = Raises ''boom''"

definition empty_grader :: grader where
  "empty_grader s p = Returns []"

section \<open>Errors and paths of the dataset code\<close>

text \<open>
  The exceptions of the dataset code, by class. \<open>ValueErr\<close>, \<open>RuntimeErr\<close> and
  \<open>KeyErr\<close> carry what the message names; \<open>EnvErr\<close> is any failure of the world outside
  (file system, \<open>git\<close>, JSON text), with a tag.
\<close>

datatype py_error =
    ValueErr string
  | KeyErr string
  | TypeErr
  | AttributeErr
  | RuntimeErr string
  | EnvErr string

text \<open>\<open>obj[k]\<close> with a string key: only a dict has one.\<close>

definition subscript :: "json \<Rightarrow> string \<Rightarrow> py_error + json" where
  "subscript obj k =
     (case obj of
        JObj d \<Rightarrow> (case map_of d k of None \<Rightarrow> Inl (KeyErr k) | Some v \<Rightarrow> Inr v)
      | _ \<Rightarrow> Inl TypeErr)"

text \<open>
  POSIX paths as text. \<open>base / s\<close> of pathlib: an absolute right operand replaces the
  left one.
\<close>

definition is_absolute :: "string \<Rightarrow> bool" where
  "is_absolute s = (case s of [] \<Rightarrow> False | c # _ \<Rightarrow> c = CHR ''/'')"

definition join :: "path \<Rightarrow> string \<Rightarrow> path" where
  "join base s = (if is_absolute s then s else base @ ''/'' @ s)"

text \<open>The components of a path: the text between the slashes, empty ones dropped.\<close>

definition parts :: "path \<Rightarrow> string list" where
  "parts p = filter (\<lambda>c. c \<noteq> []) (split_slash [] p)"

text \<open>
  \<open>Path.resolve()\<close> of an absolute path on a file system with no symbolic link on the
  way: \<open>.\<close> is dropped, \<open>..\<close> removes the component before it (and stays at the
  root). The stack \<open>acc\<close> holds the components so far, last one first.
\<close>

fun normalize :: "string list \<Rightarrow> string list \<Rightarrow> string list" where
  "normalize acc [] = rev acc"
| "normalize acc (c # cs) =
     (if c = ''.'' then normalize acc cs
      else if c = ''..'' then normalize (tl acc) cs
      else normalize (c # acc) cs)"

fun unparts :: "string list \<Rightarrow> path" where
  "unparts [] = ''/''"
| "unparts [c] = CHR ''/'' # c"
| "unparts (c # cs) = CHR ''/'' # c @ unparts cs"

definition resolve :: "path \<Rightarrow> path" where
  "resolve p = unparts (normalize [] (parts p))"

text \<open>\<open>s.startswith(p)\<close>.\<close>

definition startswith :: "string \<Rightarrow> string \<Rightarrow> bool" where
  "startswith s p = (take (length p) s = p)"

text \<open>
  What the claim calls inside the destination directory: the components of the
  destination are the first components of the resolved path.
\<close>

definition inside :: "path \<Rightarrow> path \<Rightarrow> bool" where
  "inside dest p = prefix (normalize [] (parts dest)) (normalize [] (parts p))"

section \<open>Archive extraction (datasets/adapters/transforms.py)\<close>

text \<open>
  An opened archive is the list of its members in archive order, each a name and a
  content. The loop over the members raises at the first member whose resolved path, as
  text, does not start with the text of the resolved destination; \<open>what\<close> is the word
  \<open>tar\<close> or \<open>zip\<close> of the message.
\<close>

type_synonym 'c archive = "(string \<times> 'c) list"

fun check_members :: "string \<Rightarrow> path \<Rightarrow> string list \<Rightarrow> py_error + unit" where
  "check_members what dest [] = Inr ()"
| "check_members what dest (name # names) =
     (if \<not> startswith (resolve (join dest name)) (resolve dest)
      then Inl (RuntimeErr (''Unsafe '' @ what @ '' member path: '' @ name))
      else check_members what dest names)"

text \<open>
  \<open>_safe_untar\<close> and \<open>_safe_unzip\<close>. \<open>extractall\<close> is the library's extraction
  into \<open>dest\<close>, acting on the file system \<open>fs\<close>; an error leaves \<open>fs\<close> as it was, since
  the loop comes first.
\<close>

definition safe_untar ::
  "(path \<Rightarrow> 'c archive \<Rightarrow> 'fs \<Rightarrow> 'fs) \<Rightarrow> 'c archive \<Rightarrow> path \<Rightarrow> 'fs \<Rightarrow> py_error + 'fs" where
  "safe_untar extractall tf dest fs =
     (case check_members ''tar'' dest (map fst tf) of
        Inl e \<Rightarrow> Inl e
      | Inr _ \<Rightarrow> Inr (extractall dest tf fs))"

definition safe_unzip ::
  "(path \<Rightarrow> 'c archive \<Rightarrow> 'fs \<Rightarrow> 'fs) \<Rightarrow> 'c archive \<Rightarrow> path \<Rightarrow> 'fs \<Rightarrow> py_error + 'fs" where
  "safe_unzip extractall zf dest fs =
     (case check_members ''zip'' dest (map fst zf) of
        Inl e \<Rightarrow> Inl e
      | Inr _ \<Rightarrow> Inr (extractall dest zf fs))"

section \<open>Reading a manifest (datasets/tasks.py)\<close>

definition str_int :: "int \<Rightarrow> string" where
  "str_int i = (if i < 0 then CHR ''-'' # str_nat (nat (- i)) else str_nat (nat i))"

text \<open>
  \<open>str(v)\<close>. \<open>other\<close> is the text Python prints for a float, a list or a dict.
\<close>

definition py_str :: "(json \<Rightarrow> string) \<Rightarrow> json \<Rightarrow> string" where
  "py_str other v =
     (case v of
        JStr s \<Rightarrow> s
      | JInt i \<Rightarrow> str_int i
      | JBool b \<Rightarrow> (if b then ''True'' else ''False'')
      | JNull \<Rightarrow> ''None''
      | _ \<Rightarrow> other v)"

text \<open>\<open>a or b\<close>.\<close>

definition py_or :: "json \<Rightarrow> json \<Rightarrow> json" where
  "py_or a b = (if truthy a then a else b)"

text \<open>
  \<open>_maybe_rel\<close>. \<open>Path(s)\<close> raises \<open>TypeError\<close> unless \<open>s\<close> is a string; an
  absolute path is returned as \<open>Path(s)\<close>, and \<open>rel base s\<close> stands for
  \<open>(base / Path(s)).resolve()\<close>, which depends on the file system.
\<close>

definition maybe_rel :: "(path \<Rightarrow> string \<Rightarrow> path) \<Rightarrow> path \<Rightarrow> json \<Rightarrow> py_error + path option" where
  "maybe_rel rel base s =
     (if \<not> truthy s then Inr None
      else (case s of
              JStr p \<Rightarrow> Inr (Some (if is_absolute p then path_str p else rel base p))
            | _ \<Rightarrow> Inl TypeErr))"

definition reserved_keys :: "string list" where
  "reserved_keys = [''id'', ''name'', ''instruction'', ''input'', ''answer'']"

text \<open>The default instruction, \<open>f"Run benchmark task '{tid}'."\<close>.\<close>

definition default_instruction :: "string \<Rightarrow> string" where
  "default_instruction tid = ''Run benchmark task '' @ [CHR 0x27] @ tid @ [CHR 0x27] @ ''.''"

text \<open>
  The loop \<open>for t in raw\<close> with the list \<open>out\<close> built so far. \<open>t.get\<close> exists only
  when \<open>t\<close> is a dict.
\<close>

fun parse_records ::
  "(json \<Rightarrow> string) \<Rightarrow> (path \<Rightarrow> string \<Rightarrow> path) \<Rightarrow> path \<Rightarrow> json list \<Rightarrow> task_spec list \<Rightarrow>
   py_error + task_spec list" where
  "parse_records other rel dataset_root [] out = Inr out"
| "parse_records other rel dataset_root (t # raw) out =
     (case t of
        JObj d \<Rightarrow>
          (let tid = py_str other
                 (py_or (dict_get d ''id'')
                    (py_or (dict_get d ''name'') (JStr (''task-'' @ str_nat (length out + 1)))));
               instr = py_or (dict_get d ''instruction'') (JStr (default_instruction tid))
           in (case maybe_rel rel dataset_root (dict_get d ''input'') of
                 Inl e \<Rightarrow> Inl e
               | Inr inp \<Rightarrow>
                   (case maybe_rel rel dataset_root (dict_get d ''answer'') of
                      Inl e \<Rightarrow> Inl e
                    | Inr ans \<Rightarrow>
                        parse_records other rel dataset_root raw
                          (out @ [\<lparr>spec_id = tid, instruction = instr, input_path = inp,
                                   answer_path = ans,
                                   meta = filter (\<lambda>kv. fst kv \<notin> set reserved_keys) d\<rparr>]))))
      | _ \<Rightarrow> Inl AttributeErr)"

definition parse_tasks ::
  "(json \<Rightarrow> string) \<Rightarrow> (path \<Rightarrow> string \<Rightarrow> path) \<Rightarrow> json \<Rightarrow> path \<Rightarrow> py_error + task_spec list" where
  "parse_tasks other rel obj dataset_root =
     (case obj of
        JList raw \<Rightarrow> parse_records other rel dataset_root raw []
      | JObj d \<Rightarrow>
          (case map_of d ''tasks'' of
             Some (JList raw) \<Rightarrow> parse_records other rel dataset_root raw []
           | _ \<Rightarrow> Inl (ValueErr ''manifest''))
      | _ \<Rightarrow> Inl (ValueErr ''manifest''))"

section \<open>The file system of the dataset code\<close>

text \<open>
  A file system with no symbolic link: a location is the list of the components of an
  absolute path after \<open>.\<close> and \<open>..\<close> are worked out, and the file system gives the
  node at each location that exists.
\<close>

datatype node = File string | Dir

type_synonym loc = "string list"

type_synonym fs = "loc \<Rightarrow> node option"

definition loc_of :: "path \<Rightarrow> loc" where
  "loc_of p = normalize [] (parts p)"

text \<open>\<open>p.exists()\<close>.\<close>

definition exists_path :: "fs \<Rightarrow> path \<Rightarrow> bool" where
  "exists_path s p = (s (loc_of p) \<noteq> None)"

text \<open>
  \<open>ensure_dir\<close> (datasets/utils.py), \<open>p.mkdir(parents=True, exist_ok=True)\<close>: every
  missing location on the way to \<open>p\<close>, and \<open>p\<close>, become directories; nothing that
  exists changes. The call is taken to succeed.
\<close>

definition ensure_dir :: "path \<Rightarrow> fs \<Rightarrow> fs" where
  "ensure_dir p s = (\<lambda>k. if prefix k (loc_of p) \<and> s k = None then Some Dir else s k)"

text \<open>
  \<open>shutil.rmtree(p)\<close>: \<open>p\<close> and all below it are gone. \<open>safe_rmtree\<close>
  (datasets/utils.py) calls it when \<open>p\<close> exists.
\<close>

definition rmtree :: "path \<Rightarrow> fs \<Rightarrow> fs" where
  "rmtree p s = (\<lambda>k. if prefix (loc_of p) k then None else s k)"

definition safe_rmtree :: "path \<Rightarrow> fs \<Rightarrow> fs" where
  "safe_rmtree p s = (if exists_path s p then rmtree p s else s)"

text \<open>
  \<open>tempfile.TemporaryDirectory\<close>: on entry the directory \<open>tmp\<close> is created, on exit
  (by a return or by an exception) it is removed with all below it.
\<close>

definition mkdtemp :: "path \<Rightarrow> fs \<Rightarrow> fs" where
  "mkdtemp tmp s = s(loc_of tmp := Some Dir)"

text \<open>\<open>p.parent\<close> of pathlib: the path without its last component.\<close>

definition path_parent :: "path \<Rightarrow> path" where
  "path_parent p =
     (let r = path_root p;
          ps = butlast (filter (\<lambda>c. c \<noteq> [] \<and> c \<noteq> ''.'') (split_slash [] p))
      in if r = [] \<and> ps = [] then ''.'' else r @ join_slash ps)"

section \<open>Checking out a dataset (datasets/checkout.py)\<close>

text \<open>\<open>DatasetConfig\<close>; the fields hold the JSON values of the registry entry.\<close>

record dataset_config =
  cfg_id :: json
  cfg_version :: json
  cfg_source :: json
  cfg_transforms :: json
  cfg_manifest :: json
  cfg_tasks :: json

text \<open>
  The world outside \<open>checkout_one\<close>, one field for each call that leaves the code:
  reading the registry file, reading a configuration file, pathlib's \<open>resolve\<close>, the
  name that \<open>tempfile\<close> chooses, \<open>fetch_git\<close> (url, ref, subdir, temporary directory),
  \<open>shutil.copytree\<close>, \<open>Path.rename\<close> and \<open>shutil.move\<close> (source, target), and the
  six transform functions that work through archives and glob patterns (root, step).
  Every one of them that writes acts on the whole file system: it gives the file system
  after the call, and an error when it raises, which may come after it has written.
\<close>

record env =
  load_registry :: "py_error + pydict"
  read_config :: "json \<Rightarrow> py_error + json"
  resolve_path :: "path \<Rightarrow> path"
  tmp_dir :: path
  fetch_git :: "json \<Rightarrow> json \<Rightarrow> json \<Rightarrow> path \<Rightarrow> fs \<Rightarrow> (py_error + path) \<times> fs"
  copytree :: "path \<Rightarrow> path \<Rightarrow> fs \<Rightarrow> py_error option \<times> fs"
  path_rename :: "path \<Rightarrow> path \<Rightarrow> fs \<Rightarrow> py_error option \<times> fs"
  shutil_move :: "path \<Rightarrow> path \<Rightarrow> fs \<Rightarrow> py_error option \<times> fs"
  t_unzip :: "path \<Rightarrow> json \<Rightarrow> fs \<Rightarrow> py_error option \<times> fs"
  t_keep_only :: "path \<Rightarrow> json \<Rightarrow> fs \<Rightarrow> py_error option \<times> fs"
  t_strip_prefix :: "path \<Rightarrow> json \<Rightarrow> fs \<Rightarrow> py_error option \<times> fs"
  t_delete :: "path \<Rightarrow> json \<Rightarrow> fs \<Rightarrow> py_error option \<times> fs"
  t_copy :: "path \<Rightarrow> json \<Rightarrow> fs \<Rightarrow> py_error option \<times> fs"
  t_untar :: "path \<Rightarrow> json \<Rightarrow> fs \<Rightarrow> py_error option \<times> fs"

text \<open>\<open>obj.get(k, default)\<close> on a dict.\<close>

definition dict_get_default :: "pydict \<Rightarrow> string \<Rightarrow> json \<Rightarrow> json" where
  "dict_get_default d k dflt = (case map_of d k of None \<Rightarrow> dflt | Some v \<Rightarrow> v)"

text \<open>
  \<open>load_dataset_config\<close>: a dict is taken as it is, anything else names a file to read.
  \<open>obj["id"]\<close> and \<open>obj["source"]\<close> raise when \<open>obj\<close> is no dict or lacks the key.
\<close>

definition load_dataset_config :: "env \<Rightarrow> json \<Rightarrow> py_error + dataset_config" where
  "load_dataset_config env ref =
     (case (case ref of JObj d \<Rightarrow> Inr ref | _ \<Rightarrow> read_config env ref) of
        Inl e \<Rightarrow> Inl e
      | Inr obj \<Rightarrow>
          (case subscript obj ''id'' of
             Inl e \<Rightarrow> Inl e
           | Inr i \<Rightarrow>
               (case subscript obj ''source'' of
                  Inl e \<Rightarrow> Inl e
                | Inr src \<Rightarrow>
                    (case obj of
                       JObj d \<Rightarrow>
                         Inr \<lparr>cfg_id = i, cfg_version = dict_get_default d ''version'' (JStr ''0.0.0''),
                              cfg_source = src, cfg_transforms = dict_get_default d ''transforms'' (JList []),
                              cfg_manifest = dict_get d ''manifest'', cfg_tasks = dict_get d ''tasks''\<rparr>
                     | _ \<Rightarrow> Inl AttributeErr))))"

text \<open>\<open>_fetch_source\<close>; \<open>source.get\<close> is reached only when \<open>source\<close> is a dict.\<close>

definition fetch_source :: "env \<Rightarrow> json \<Rightarrow> path \<Rightarrow> fs \<Rightarrow> (py_error + path) \<times> fs" where
  "fetch_source env source tmp s =
     (case subscript source ''type'' of
        Inl e \<Rightarrow> (Inl e, s)
      | Inr stype \<Rightarrow>
          if stype = JStr ''git'' then
            (case subscript source ''url'' of
               Inl e \<Rightarrow> (Inl e, s)
             | Inr url \<Rightarrow>
                 (case source of
                    JObj d \<Rightarrow> fetch_git env url (dict_get d ''ref'') (dict_get d ''subdir'') tmp s
                  | _ \<Rightarrow> (Inl AttributeErr, s)))
          else (Inl (ValueErr ''Unsupported source type''), s))"

text \<open>
  \<open>root / step[k]\<close>: \<open>step[k]\<close> raises unless \<open>step\<close> is a dict with the key, and
  the division raises \<open>TypeError\<close> unless the value is a string.
\<close>

definition path_arg :: "path \<Rightarrow> json \<Rightarrow> string \<Rightarrow> py_error + path" where
  "path_arg root_dir st k =
     (case subscript st k of
        Inl e \<Rightarrow> Inl e
      | Inr (JStr p) \<Rightarrow> Inr (join root_dir p)
      | Inr _ \<Rightarrow> Inl TypeErr)"

text \<open>\<open>_t_rename\<close>: \<open>(root / step["from"]).rename(root / step["to"])\<close>.\<close>

definition t_rename :: "env \<Rightarrow> path \<Rightarrow> json \<Rightarrow> fs \<Rightarrow> py_error option \<times> fs" where
  "t_rename env root_dir st s =
     (case path_arg root_dir st ''from'' of
        Inl e \<Rightarrow> (Some e, s)
      | Inr src \<Rightarrow>
          (case path_arg root_dir st ''to'' of
             Inl e \<Rightarrow> (Some e, s)
           | Inr dst \<Rightarrow> path_rename env src dst s))"

text \<open>\<open>_t_move\<close>: the parent of the target is ensured, then \<open>shutil.move\<close> runs.\<close>

definition t_move :: "env \<Rightarrow> path \<Rightarrow> json \<Rightarrow> fs \<Rightarrow> py_error option \<times> fs" where
  "t_move env root_dir st s =
     (case path_arg root_dir st ''from'' of
        Inl e \<Rightarrow> (Some e, s)
      | Inr src \<Rightarrow>
          (case path_arg root_dir st ''to'' of
             Inl e \<Rightarrow> (Some e, s)
           | Inr dst \<Rightarrow> shutil_move env src dst (ensure_dir (path_parent dst) s)))"

text \<open>
  One round of the loop of \<open>apply_transforms\<close>: the chain of comparisons of \<open>t\<close>. The
  result is the exception raised, if any, and the file system after the round.
\<close>

definition apply_step :: "env \<Rightarrow> path \<Rightarrow> json \<Rightarrow> fs \<Rightarrow> py_error option \<times> fs" where
  "apply_step env root_dir st s =
     (case subscript st ''type'' of
        Inl e \<Rightarrow> (Some e, s)
      | Inr t \<Rightarrow>
          if t = JStr ''unzip'' then t_unzip env root_dir st s
          else if t = JStr ''keep_only'' then t_keep_only env root_dir st s
          else if t = JStr ''strip_prefix'' then t_strip_prefix env root_dir st s
          else if t = JStr ''rename'' then t_rename env root_dir st s
          else if t = JStr ''delete'' then t_delete env root_dir st s
          else if t = JStr ''copy'' then t_copy env root_dir st s
          else if t = JStr ''move'' then t_move env root_dir st s
          else if t = JStr ''untar'' then t_untar env root_dir st s
          else (Some (ValueErr ''Unknown transform type''), s))"

fun apply_steps :: "env \<Rightarrow> path \<Rightarrow> json list \<Rightarrow> fs \<Rightarrow> py_error option \<times> fs" where
  "apply_steps env root_dir [] s = (None, s)"
| "apply_steps env root_dir (st # sts) s =
     (case apply_step env root_dir st s of
        (Some e, s') \<Rightarrow> (Some e, s')
      | (None, s') \<Rightarrow> apply_steps env root_dir sts s')"

text \<open>
  What \<open>for step in transforms\<close> runs over: the elements of a list, the characters of
  a string, the keys of a dict; other values cannot be iterated.
\<close>

definition py_iter :: "json \<Rightarrow> py_error + json list" where
  "py_iter v =
     (case v of
        JList xs \<Rightarrow> Inr xs
      | JStr s \<Rightarrow> Inr (map (\<lambda>c. JStr [c]) s)
      | JObj d \<Rightarrow> Inr (map (\<lambda>kv. JStr (fst kv)) d)
      | _ \<Rightarrow> Inl TypeErr)"

definition apply_transforms :: "env \<Rightarrow> path \<Rightarrow> json \<Rightarrow> fs \<Rightarrow> py_error option \<times> fs" where
  "apply_transforms env root_dir transforms s =
     (case py_iter transforms of
        Inl e \<Rightarrow> (Some e, s)
      | Inr steps \<Rightarrow> apply_steps env root_dir steps s)"

text \<open>
  The body of the \<open>with\<close> block of \<open>checkout_one\<close>: fetch into \<open>tmp\<close>, copy to
  \<open>tmp / "work"\<close>, transform there, remove the destination when it exists, move the
  working directory to the destination. \<open>safe_rmtree\<close> is taken to succeed.
\<close>

definition staging :: "env \<Rightarrow> dataset_config \<Rightarrow> path \<Rightarrow> path \<Rightarrow> fs \<Rightarrow> py_error option \<times> fs" where
  "staging env cfg tmp dst_path s =
     (case fetch_source env (cfg_source cfg) tmp s of
        (Inl e, s1) \<Rightarrow> (Some e, s1)
      | (Inr src_root, s1) \<Rightarrow>
          let workdir = join tmp ''work'' in
          (case copytree env src_root workdir s1 of
             (Some e, s2) \<Rightarrow> (Some e, s2)
           | (None, s2) \<Rightarrow>
               (case apply_transforms env workdir (cfg_transforms cfg) s2 of
                  (Some e, s3) \<Rightarrow> (Some e, s3)
                | (None, s3) \<Rightarrow> shutil_move env workdir dst_path (safe_rmtree dst_path s3))))"

text \<open>
  \<open>checkout_one\<close>: the value returned or the exception raised, and the file system
  after the call. The temporary directory is removed however the block is left;
  \<open>ensure_dir\<close> and the removal are taken to succeed.
\<close>

definition checkout_one ::
  "env \<Rightarrow> string \<Rightarrow> path \<Rightarrow> bool \<Rightarrow> fs \<Rightarrow> (py_error + path) \<times> fs" where
  "checkout_one env dataset_id output_dir update s =
     (case load_registry env of
        Inl e \<Rightarrow> (Inl e, s)
      | Inr registry \<Rightarrow>
          let ref = dict_get registry dataset_id in
          if \<not> truthy ref then (Inl (ValueErr (''Dataset not found: '' @ dataset_id)), s)
          else
            (case load_dataset_config env ref of
               Inl e \<Rightarrow> (Inl e, s)
             | Inr cfg \<Rightarrow>
                 let dst_path = resolve_path env (join output_dir dataset_id);
                     s1 = ensure_dir output_dir s
                 in if exists_path s1 dst_path \<and> \<not> update then (Inr dst_path, s1)
                    else
                      let tmp = tmp_dir env in
                      (case staging env cfg tmp dst_path (mkdtemp tmp s1) of
                         (Some e, s2) \<Rightarrow> (Inl e, rmtree tmp s2)
                       | (None, s2) \<Rightarrow> (Inr dst_path, rmtree tmp s2))))"

subsection \<open>Notions used to state the properties of the dataset code\<close>

text \<open>A record that the loop accepts: a dict whose input and answer are strings or falsy.\<close>

definition path_field_ok :: "json \<Rightarrow> bool" where
  "path_field_ok v = (case v of JStr s \<Rightarrow> True | _ \<Rightarrow> \<not> truthy v)"

definition record_ok :: "json \<Rightarrow> bool" where
  "record_ok t =
     (case t of
        JObj d \<Rightarrow> path_field_ok (dict_get d ''input'') \<and> path_field_ok (dict_get d ''answer'')
      | _ \<Rightarrow> False)"

text \<open>
  The JSON values that Python counts as false, listed: \<open>null\<close>, \<open>false\<close>, the numbers
  \<open>0\<close> and \<open>0.0\<close>, and the empty string, list and object. A key of a record is unset
  when it is absent or its value is one of these.
\<close>

abbreviation falsy :: "json \<Rightarrow> bool" where
  "falsy v \<equiv> v = JNull \<or> v = JBool False \<or> v = JInt 0 \<or> (\<exists>e. v = JFloat 0 e) \<or>
             v = JStr [] \<or> v = JList [] \<or> v = JObj []"

abbreviation unset :: "pydict \<Rightarrow> string \<Rightarrow> bool" where
  "unset d k \<equiv> (case map_of d k of None \<Rightarrow> True | Some v \<Rightarrow> falsy v)"

text \<open>What the loop makes of the dict \<open>d\<close> at position \<open>n\<close> (counted from 0).\<close>

definition record_props ::
  "(json \<Rightarrow> string) \<Rightarrow> (path \<Rightarrow> string \<Rightarrow> path) \<Rightarrow> path \<Rightarrow> nat \<Rightarrow> pydict \<Rightarrow> task_spec \<Rightarrow> bool" where
  "record_props other rel r n d s =
     (spec_id s =
        (if truthy (dict_get d ''id'') then py_str other (dict_get d ''id'')
         else if truthy (dict_get d ''name'') then py_str other (dict_get d ''name'')
         else ''task-'' @ str_nat (n + 1)) \<and>
      instruction s =
        (if truthy (dict_get d ''instruction'') then dict_get d ''instruction''
         else JStr (default_instruction (spec_id s))) \<and>
      input_path s =
        (case dict_get d ''input'' of
           JStr p \<Rightarrow> if p = [] then None else Some (if is_absolute p then path_str p else rel r p)
         | _ \<Rightarrow> None) \<and>
      answer_path s =
        (case dict_get d ''answer'' of
           JStr p \<Rightarrow> if p = [] then None else Some (if is_absolute p then path_str p else rel r p)
         | _ \<Rightarrow> None) \<and>
      meta s = filter (\<lambda>kv. fst kv \<notin> set reserved_keys) d)"

text \<open>A manifest of four records for the concrete runs below.\<close>

definition demo_manifest :: "json list" where
  "demo_manifest =
     [JObj [(''id'', JStr ''t1''), (''instruction'', JStr ''do X'')],
      JObj [(''name'', JStr ''n2''), (''input'', JStr ''in/a.xlsx''),
            (''answer'', JStr ''/abs//b.xlsx''), (''level'', JInt 3)],
      JObj [(''id'', JInt 0), (''input'', JNull)],
      JObj [(''id'', JInt 7), (''name'', JStr ''seven''), (''instruction'', JBool False)]]"



text \<open>
  A world for the concrete runs below. The registry names three datasets: \<open>basic\<close>
  with one unzip step, \<open>broken\<close> whose second step has an unknown type, and \<open>leaky\<close>
  whose first step moves \<open>tasks.json\<close> to an absolute path, the place of the installed
  dataset, and whose second step has an unknown type.
\<close>

definition demo_source :: json where
  "demo_source = JObj [(''type'', JStr ''git''), (''url'', JStr ''https://example.org/r.git'')]"

definition demo_registry :: pydict where
  "demo_registry =
     [(''benchmark-tasks/basic'',
       JObj [(''id'', JStr ''benchmark-tasks/basic''),
             (''source'', demo_source),
             (''transforms'', JList [JObj [(''type'', JStr ''unzip''), (''patterns'', JList [JStr ''*.zip''])]]),
             (''manifest'', JStr ''tasks.json'')]),
      (''benchmark-tasks/broken'',
       JObj [(''id'', JStr ''benchmark-tasks/broken''),
             (''source'', demo_source),
             (''transforms'', JList [JObj [(''type'', JStr ''unzip''), (''patterns'', JList [JStr ''*.zip''])],
                                     JObj [(''type'', JStr ''gunzip'')]])]),
      (''benchmark-tasks/leaky'',
       JObj [(''id'', JStr ''benchmark-tasks/leaky''),
             (''source'', demo_source),
             (''transforms'', JList [JObj [(''type'', JStr ''move''), (''from'', JStr ''tasks.json''),
                                           (''to'', JStr ''/data/datasets/benchmark-tasks/leaky/tasks.json'')],
                                     JObj [(''type'', JStr ''gunzip'')]])])]"

text \<open>
  The clone puts a repository with the one file \<open>tasks.json\<close> at \<open>tmp / "repo"\<close>. A
  copy puts the tree of the source at the target as well, a move or a rename puts it
  there and removes it at the source (\<open>shutil.move\<close> creates the directories above the
  target when they are missing). The six transforms that work through archives and
  patterns find nothing to do.
\<close>

definition graft :: "path \<Rightarrow> path \<Rightarrow> fs \<Rightarrow> fs" where
  "graft src dst s =
     (\<lambda>k. if prefix (loc_of dst) k then s (loc_of src @ drop (length (loc_of dst)) k) else s k)"

definition demo_fetch :: "json \<Rightarrow> json \<Rightarrow> json \<Rightarrow> path \<Rightarrow> fs \<Rightarrow> (py_error + path) \<times> fs" where
  "demo_fetch url ref subdir tmp s =
     (Inr (join tmp ''repo''),
      s(loc_of (join tmp ''repo'') := Some Dir,
        loc_of (join tmp ''repo/tasks.json'') := Some (File ''[]'')))"

definition demo_copytree :: "path \<Rightarrow> path \<Rightarrow> fs \<Rightarrow> py_error option \<times> fs" where
  "demo_copytree src dst s = (None, graft src dst s)"

definition demo_move :: "path \<Rightarrow> path \<Rightarrow> fs \<Rightarrow> py_error option \<times> fs" where
  "demo_move src dst s = (None, rmtree src (graft src dst (ensure_dir (path_parent dst) s)))"

definition demo_env :: env where
  "demo_env =
     \<lparr>load_registry = Inr demo_registry,
      read_config = (\<lambda>ref. Inl (EnvErr ''read_text'')),
      resolve_path = resolve,
      tmp_dir = ''/tmp/arena_x'',
      fetch_git = demo_fetch,
      copytree = demo_copytree,
      path_rename = demo_move,
      shutil_move = demo_move,
      t_unzip = (\<lambda>r st s. (None, s)), t_keep_only = (\<lambda>r st s. (None, s)),
      t_strip_prefix = (\<lambda>r st s. (None, s)), t_delete = (\<lambda>r st s. (None, s)),
      t_copy = (\<lambda>r st s. (None, s)), t_untar = (\<lambda>r st s. (None, s))\<rparr>"

text \<open>The same world with a clone that fails.\<close>

definition demo_env_no_clone :: env where
  "demo_env_no_clone =
     demo_env\<lparr>fetch_git := (\<lambda>url ref subdir tmp s. (Inl (EnvErr ''git clone''), s))\<rparr>"

text \<open>
  Two file systems: one with the directories \<open>/tmp\<close> and \<open>/data\<close> only, and one in
  which the datasets \<open>basic\<close> and \<open>broken\<close> are installed under \<open>/data/datasets\<close>.
\<close>

definition demo_disk_empty :: fs where
  "demo_disk_empty = map_of [([], Dir), ([''tmp''], Dir), ([''data''], Dir)]"

definition demo_disk :: fs where
  "demo_disk =
     map_of [([], Dir), ([''tmp''], Dir), ([''data''], Dir), ([''data'', ''datasets''], Dir),
             ([''data'', ''datasets'', ''benchmark-tasks''], Dir),
             ([''data'', ''datasets'', ''benchmark-tasks'', ''basic''], Dir),
             ([''data'', ''datasets'', ''benchmark-tasks'', ''basic'', ''tasks.json''], File ''old''),
             ([''data'', ''datasets'', ''benchmark-tasks'', ''broken''], Dir),
             ([''data'', ''datasets'', ''benchmark-tasks'', ''broken'', ''old.csv''], File ''old'')]"

text \<open>
  A member that passes the test of the extraction loop: the text of its resolved path
  starts with the text of the resolved destination.
\<close>

definition text_ok :: "path \<Rightarrow> string \<times> 'c \<Rightarrow> bool" where
  "text_ok dest m = startswith (resolve (join dest (fst m))) (resolve dest)"

text \<open>The eight kinds that \<open>apply_transforms\<close> knows.\<close>

definition known_kinds :: "string list" where
  "known_kinds = [''unzip'', ''keep_only'', ''strip_prefix'', ''rename'', ''delete'', ''copy'',
                  ''move'', ''untar'']"

text \<open>A grading callback that returns a score of 1.\<close>

definition score_grader :: grader where
  "score_grader s p = Returns [(''score'', JInt 1)]"

text \<open>
  The counter is the number of completed items; it is \<open>n\<close> when every item is
  completed and less than \<open>n\<close> otherwise.
\<close>

definition counter_agrees :: "nat \<Rightarrow> task_queue \<Rightarrow> bool" where
  "counter_agrees n s =
     (completed_count s = length (filter (\<lambda>it. status it = Completed) (items s)) \<and>
      (if list_all (\<lambda>it. status it = Completed) (items s)
       then completed_count s = n else completed_count s < n))"

section \<open>Properties of the task queue\<close>

lemmas demo_simps = init_queue_def new_item_def next_task_def submit_answer_def lease_def
  view_of_def run_grader_def p_out_of_def or_none_def mark_completed_def demo_specs_def Let_def
  grading_error_def

lemma length_init_items: "length (items (init_queue specs g)) = length specs"
  by (simp add: init_queue_def)

lemma lease_scan_None: "lease_scan now its = None \<longleftrightarrow> list_all (\<lambda>it. status it \<noteq> Pending) its"
  by (induction its) (auto split: option.splits)

lemma lease_scan_first:
  "list_all (\<lambda>it. status it \<noteq> Pending) pre \<Longrightarrow> status it = Pending \<Longrightarrow>
   lease_scan now (pre @ it # post) = Some (lease now it, pre @ lease now it # post)"
  by (induction pre) auto

lemma lease_scan_Some:
  "lease_scan now its = Some (l, its') \<Longrightarrow>
   \<exists>pre it post. its = pre @ it # post \<and> list_all (\<lambda>it. status it \<noteq> Pending) pre \<and>
      status it = Pending \<and> l = lease now it \<and> its' = pre @ l # post"
proof (induction its arbitrary: its')
  case Nil
  then show ?case by simp
next
  case (Cons a its)
  show ?case
  proof (cases "status a = Pending")
    case True
    with Cons.prems have "l = lease now a" "its' = lease now a # its" by auto
    with True show ?thesis by (intro exI[of _ "[]"] exI[of _ a] exI[of _ its]) simp
  next
    case False
    with Cons.prems obtain r where r: "lease_scan now its = Some (l, r)" "its' = a # r"
      by (auto split: option.splits)
    from Cons.IH[OF r(1)] obtain pre it post where
      "its = pre @ it # post" "list_all (\<lambda>it. status it \<noteq> Pending) pre"
      "status it = Pending" "l = lease now it" "r = pre @ l # post" by blast
    with False r(2) show ?thesis
      by (intro exI[of _ "a # pre"] exI[of _ it] exI[of _ post]) simp
  qed
qed

lemma item_id_lease [simp]: "item_id (lease now it) = item_id it"
  by (simp add: lease_def)

lemma status_lease [simp]: "status (lease now it) = InProgress"
  by (simp add: lease_def)

lemma spec_lease [simp]: "spec (lease now it) = spec it"
  by (simp add: lease_def)

lemma item_id_complete [simp]: "item_id (mark_completed t r it) = item_id it"
  by (simp add: mark_completed_def)

lemma spec_complete [simp]: "spec (mark_completed t r it) = spec it"
  by (simp add: mark_completed_def)

lemma status_complete [simp]: "status (mark_completed t r it) = Completed"
  by (simp add: mark_completed_def)

lemma lease_scan_ids:
  "lease_scan now its = Some (l, its') \<Longrightarrow> map item_id its' = map item_id its"
  by (drule lease_scan_Some) auto

lemma lease_scan_pending:
  assumes "lease_scan now its = Some (l, its')" "distinct (map item_id its)"
  shows "item_id l \<in> set (pending_ids its) \<and> set (pending_ids its') = set (pending_ids its) - {item_id l}"
proof -
  from lease_scan_Some[OF assms(1)] obtain pre it post where
    *: "its = pre @ it # post" "list_all (\<lambda>it. status it \<noteq> Pending) pre"
      "status it = Pending" "l = lease now it" "its' = pre @ l # post" by blast
  from *(2) have pre: "filter (\<lambda>it. status it = Pending) pre = []"
    by (induction pre) auto
  from assms(2) *(1) have "item_id it \<notin> item_id ` set post" by auto
  then have "item_id it \<notin> set (pending_ids post)" by (auto simp: pending_ids_def)
  with * pre show ?thesis by (auto simp: pending_ids_def)
qed

lemma submit_items_ids:
  "map item_id (items (snd (submit_answer t out ts tf q))) = map item_id (items q)"
  by (auto simp: submit_answer_def Let_def map_update list_update_same_conv split: option.splits)

lemma filter_update_irrelevant:
  "i < length xs \<Longrightarrow> \<not> P (xs ! i) \<Longrightarrow> \<not> P x \<Longrightarrow> filter P (xs[i := x]) = filter P xs"
proof (induction xs arbitrary: i)
  case Nil
  then show ?case by simp
next
  case (Cons a xs)
  then show ?case by (cases i) auto
qed

lemma submit_pending_ids:
  "pending_ids (items (snd (submit_answer t out ts tf q))) = pending_ids (items q)"
  by (auto simp: submit_answer_def Let_def pending_ids_def filter_update_irrelevant split: option.splits)

lemma step_ids: "map item_id (items (snd (step a q))) = map item_id (items q)"
proof (cases a)
  case (Lease now)
  then show ?thesis
    by (auto simp: next_task_def lease_scan_ids split: option.splits)
next
  case (Submit t out ts tf)
  then show ?thesis by (simp add: submit_items_ids)
qed

lemma leased_ids_run:
  "distinct (map item_id (items q)) \<Longrightarrow>
   distinct (leased_ids (responses ops q)) \<and>
   set (leased_ids (responses ops q)) \<subseteq> set (pending_ids (items q))"
proof (induction ops arbitrary: q)
  case Nil
  then show ?case by simp
next
  case (Cons a ops)
  let ?q' = "snd (step a q)"
  from Cons.prems have d': "distinct (map item_id (items ?q'))" by (simp add: step_ids)
  note IH = Cons.IH[OF d']
  show ?case
  proof (cases a)
    case (Submit t out ts tf)
    with IH show ?thesis by (simp add: submit_pending_ids)
  next
    case (Lease now)
    show ?thesis
    proof (cases "lease_scan now (items q)")
      case None
      with Lease have "step a q = (Leased None, q)" by (simp add: next_task_def)
      with IH show ?thesis by simp
    next
      case (Some p)
      obtain l its' where p: "p = (l, its')" by (cases p)
      with Some Lease have st: "fst (step a q) = Leased (Some (view_of l))" "items ?q' = its'"
        by (simp_all add: next_task_def)
      from lease_scan_pending[OF Some[unfolded p] Cons.prems]
      have "item_id l \<in> set (pending_ids (items q))"
        "set (pending_ids its') = set (pending_ids (items q)) - {item_id l}" by auto
      with IH st show ?thesis by (auto simp: view_of_def)
    qed
  qed
qed

lemma init_ids: "map item_id (items (init_queue specs g)) = [0..<length specs]"
  by (simp add: init_queue_def new_item_def map_fst_enumerate comp_def)

lemma lease_scan_eq:
  "lease_scan now its =
     (let n = length (takeWhile (\<lambda>it. status it \<noteq> Pending) its) in
      if n = length its then None
      else Some (lease now (its ! n), its[n := lease now (its ! n)]))"
  by (induction its) (auto simp: Let_def)

lemma forward_refl: "forward q q"
  by (simp add: forward_def list_all2_refl)

lemma forward_trans: "forward a b \<Longrightarrow> forward b c \<Longrightarrow> forward a c"
  unfolding forward_def
  by (auto elim: list_all2_trans[rotated])

lemma next_task_forward: "forward q (snd (next_task now q))"
proof (cases "lease_scan now (items q)")
  case None
  then show ?thesis by (simp add: next_task_def forward_refl)
next
  case (Some p)
  obtain l its' where p: "p = (l, its')" by (cases p)
  from lease_scan_Some[OF Some[unfolded p]] obtain pre it post where
    "items q = pre @ it # post" "its' = pre @ lease now it # post" "status it = Pending" by blast
  with Some p show ?thesis
    by (auto simp: next_task_def forward_def intro!: list_all2_appendI list_all2_refl)
qed

lemma submit_forward: "forward q (snd (submit_answer t out ts tf q))"
  by (auto simp: submit_answer_def Let_def forward_def list_all2_conv_all_nth nth_list_update
      split: option.splits)

lemma step_forward: "forward q (snd (step a q))"
  by (cases a) (simp_all add: next_task_forward submit_forward)

lemma step_length: "length (items (snd (step a q))) = length (items q)"
  using step_ids[of a q] by (metis length_map)

lemma filter_update_gain:
  "i < length xs \<Longrightarrow> \<not> P (xs ! i) \<Longrightarrow> P x \<Longrightarrow>
   length (filter P (xs[i := x])) = Suc (length (filter P xs))"
proof (induction xs arbitrary: i)
  case Nil
  then show ?case by simp
next
  case (Cons a xs)
  then show ?case by (cases i) auto
qed

lemma next_task_counted: "counted q \<Longrightarrow> counted (snd (next_task now q))"
proof (cases "lease_scan now (items q)")
  case None
  then show "counted q \<Longrightarrow> ?thesis" by (simp add: next_task_def)
next
  case (Some p)
  obtain l its' where p: "p = (l, its')" by (cases p)
  from lease_scan_Some[OF Some[unfolded p]] obtain pre it post where
    "items q = pre @ it # post" "its' = pre @ lease now it # post" "status it = Pending" by blast
  with Some p show "counted q \<Longrightarrow> ?thesis"
    by (simp add: next_task_def counted_def)
qed

lemma submit_counted: "counted q \<Longrightarrow> counted (snd (submit_answer t out ts tf q))"
  by (auto simp: submit_answer_def Let_def counted_def filter_update_gain split: option.splits)

lemma step_counted: "counted q \<Longrightarrow> counted (snd (step a q))"
  by (cases a) (simp_all add: next_task_counted submit_counted)

lemma counted_le: "counted q \<Longrightarrow> completed q \<le> length (items q)"
  by (simp add: counted_def)

lemma counted_init: "counted (init_queue specs g)"
  by (simp add: counted_def init_queue_def new_item_def filter_empty_conv)

lemma trace_forward: "s \<in> set (trace ops q) \<Longrightarrow> forward q s"
proof (induction ops arbitrary: q)
  case Nil
  then show ?case by (simp add: forward_refl)
next
  case (Cons a ops)
  then show ?case
    by (auto simp: forward_refl intro: forward_trans[OF step_forward])
qed

lemma trace_forward_step: "s \<in> set (trace ops (snd (step a q))) \<Longrightarrow> forward q s"
  by (rule forward_trans[OF step_forward trace_forward])

lemma trace_sorted: "sorted_wrt forward (trace ops q)"
  by (induction ops arbitrary: q) (auto simp: trace_forward_step)

lemma trace_bounded:
  "counted q \<Longrightarrow>
   list_all (\<lambda>s. completed s \<le> length (items q) \<and> length (items s) = length (items q)) (trace ops q)"
proof (induction ops arbitrary: q)
  case Nil
  then show ?case by (simp add: counted_le)
next
  case (Cons a ops)
  from Cons.IH[OF step_counted[OF Cons.prems, of a]] Cons.prems
  show ?case by (simp add: counted_le step_length)
qed

lemma trace_unfold: "trace ops q = q # tl (trace ops q)"
  by (cases ops) simp_all

lemma entries_Cons:
  "entries i (trace (a # ops) q) =
     (if enters i (q, snd (step a q)) then 1 else 0) + entries i (trace ops (snd (step a q)))"
proof -
  obtain T where T: "trace ops (snd (step a q)) = snd (step a q) # T"
    using trace_unfold by blast
  then show ?thesis by (simp add: entries_def)
qed

lemma forward_nth:
  "forward q q' \<Longrightarrow> i < length (items q) \<Longrightarrow>
   rank (status (items q ! i)) \<le> rank (status (items q' ! i))"
  by (simp add: forward_def list_all2_conv_all_nth)

lemma rank_0 [simp]: "rank s = 0 \<longleftrightarrow> s = Pending"
  by (cases s) simp_all

lemma entries_bound:
  "i < length (items q) \<Longrightarrow>
   entries i (trace ops q) \<le> (if status (items q ! i) = Pending then 1 else 0)"
proof (induction ops arbitrary: q)
  case Nil
  then show ?case by (simp add: entries_def)
next
  case (Cons a ops)
  let ?q' = "snd (step a q)"
  from Cons.prems have i': "i < length (items ?q')" by (simp add: step_length)
  note IH = Cons.IH[OF i']
  from forward_nth[OF step_forward Cons.prems, of a]
  have mono: "rank (status (items q ! i)) \<le> rank (status (items ?q' ! i))" .
  show ?case
  proof (cases "enters i (q, ?q')")
    case True
    then have "status (items ?q' ! i) = InProgress" "status (items q ! i) \<noteq> InProgress"
      by (simp_all add: enters_def)
    with mono have "status (items q ! i) = Pending" by (cases "status (items q ! i)") simp_all
    with IH True \<open>status (items ?q' ! i) = InProgress\<close> show ?thesis
      by (simp add: entries_Cons del: trace.simps)
  next
    case False
    show ?thesis
    proof (cases "status (items ?q' ! i) = Pending")
      case True
      with mono have "status (items q ! i) = Pending" by simp
      with IH False True show ?thesis by (simp add: entries_Cons del: trace.simps)
    next
      case F2: False
      with IH False show ?thesis by (simp add: entries_Cons del: trace.simps)
    qed
  qed
qed

lemma stepwise_refl: "stepwise q q"
  by (simp add: stepwise_def one_stage_def list_all2_refl)

lemma next_task_stepwise: "stepwise q (snd (next_task now q))"
proof (cases "lease_scan now (items q)")
  case None
  then show ?thesis by (simp add: next_task_def stepwise_refl)
next
  case (Some p)
  obtain l its' where p: "p = (l, its')" by (cases p)
  from lease_scan_Some[OF Some[unfolded p]] obtain pre it post where
    "items q = pre @ it # post" "its' = pre @ lease now it # post" "status it = Pending" by blast
  with Some p show ?thesis
    by (auto simp: next_task_def stepwise_def one_stage_def intro!: list_all2_appendI list_all2_refl)
qed

lemma submit_stepwise: "stepwise q (snd (submit_answer t out ts tf q))"
  by (auto simp: submit_answer_def Let_def stepwise_def one_stage_def list_all2_conv_all_nth
      nth_list_update split: option.splits if_splits)

lemma step_stepwise: "stepwise q (snd (step a q))"
  by (cases a) (simp_all add: next_task_stepwise submit_stepwise)

lemma trace_stepwise: "successively stepwise (trace ops q)"
proof (induction ops arbitrary: q)
  case Nil
  then show ?case by simp
next
  case (Cons a ops)
  obtain T where T: "trace ops (snd (step a q)) = snd (step a q) # T"
    using trace_unfold by blast
  from Cons.IH[of "snd (step a q)"] T step_stepwise[of q a] show ?case by simp
qed

text \<open>
  Claim C4. Along every run of leases and submits on a fresh queue: between any earlier
  and any later state no item has moved backward in \<open>pending\<close>, \<open>in_progress\<close>,
  \<open>completed\<close> and the counter has not decreased; from each state to the next every item
  stays or takes one stage, \<open>pending\<close> to \<open>in_progress\<close> or \<open>in_progress\<close> to
  \<open>completed\<close>, so none reaches \<open>completed\<close> without having been \<open>in_progress\<close>; in
  every state the counter is at most the number of items, which never changes; and every
  item enters \<open>in_progress\<close> at most once.
\<close>

theorem status_forward_counter_bounded:
  "sorted_wrt forward (trace ops (init_queue specs g)) \<and>
   successively stepwise (trace ops (init_queue specs g)) \<and>
   list_all (\<lambda>s. completed s \<le> length specs \<and> length (items s) = length specs)
     (trace ops (init_queue specs g)) \<and>
   list_all (\<lambda>i. entries i (trace ops (init_queue specs g)) \<le> 1) [0..<length specs]"
proof (intro conjI)
  show "sorted_wrt forward (trace ops (init_queue specs g))" by (rule trace_sorted)
  show "successively stepwise (trace ops (init_queue specs g))" by (rule trace_stepwise)
  from trace_bounded[OF counted_init, of specs g ops]
  show "list_all (\<lambda>s. completed s \<le> length specs \<and> length (items s) = length specs)
     (trace ops (init_queue specs g))" by (simp add: length_init_items)
  have "entries i (trace ops (init_queue specs g)) \<le> 1" if "i < length specs" for i
    using entries_bound[of i "init_queue specs g" ops] that
    by (simp add: length_init_items split: if_splits)
  then show "list_all (\<lambda>i. entries i (trace ops (init_queue specs g)) \<le> 1) [0..<length specs]"
    by (simp add: list_all_iff)
qed

theorem status_forward_counter_bounded_witness:
  "sorted_wrt forward (trace demo_ops_pending (init_queue demo_specs None)) \<and>
   successively stepwise (trace demo_ops_pending (init_queue demo_specs None)) \<and>
   map (\<lambda>s. (map status (items s), completed s))
     (trace demo_ops_pending (init_queue demo_specs None)) =
     [([Pending, Pending], 0), ([Pending, Pending], 0), ([InProgress, Pending], 0),
      ([InProgress, Pending], 0), ([Completed, Pending], 1), ([Completed, Pending], 1),
      ([Completed, InProgress], 1), ([Completed, Completed], 2)] \<and>
   entries 0 (trace demo_ops_pending (init_queue demo_specs None)) \<le> 1 \<and>
   entries 1 (trace demo_ops_pending (init_queue demo_specs None)) \<le> 1 \<and>
   \<not> one_stage Pending Completed \<and> \<not> one_stage Completed InProgress \<and>
   \<not> one_stage InProgress Pending \<and> \<not> one_stage Completed Pending"
  using status_forward_counter_bounded[of demo_ops_pending demo_specs None]
  by (simp add: demo_simps demo_ops_pending_def upt_rec one_stage_def)

lemma hide_answer_fields:
  "hide_answer s = hide_answer s' \<Longrightarrow>
   spec_id s = spec_id s' \<and> instruction s = instruction s' \<and>
   input_path s = input_path s' \<and> meta s = meta s'"
  by (cases s, cases s') (simp add: hide_answer_def)

lemma sim_view: "sim a b \<Longrightarrow> view_of (lease now a) = view_of (lease now' b)"
  by (auto simp: sim_def view_of_def dest: hide_answer_fields)

lemma sim_lease: "sim a b \<Longrightarrow> sim (lease now a) (lease now' b)"
  by (simp add: sim_def)

lemma sim_refl: "sim a a"
  by (simp add: sim_def)

lemma sim_sym: "sim a b \<Longrightarrow> sim b a"
  by (simp add: sim_def)

lemma sim_trans: "sim a b \<Longrightarrow> sim b c \<Longrightarrow> sim a c"
  by (simp add: sim_def)

lemma lease_scan_sim:
  "list_all2 sim xs ys \<Longrightarrow>
   rel_option (\<lambda>p r. view_of (fst p) = view_of (fst r) \<and> list_all2 sim (snd p) (snd r))
     (lease_scan now xs) (lease_scan now' ys)"
proof (induction rule: list_all2_induct)
  case Nil
  then show ?case by simp
next
  case (Cons x xs y ys)
  show ?case
  proof (cases "status x = Pending")
    case True
    with Cons.hyps(1) have "status y = Pending" by (simp add: sim_def)
    with True Cons.hyps show ?thesis by (simp add: sim_view sim_lease)
  next
    case False
    with Cons.hyps(1) have "status y \<noteq> Pending" by (simp add: sim_def)
    with False Cons.hyps(1) Cons.IH show ?thesis
      by (auto simp: option.rel_sel split: option.splits)
  qed
qed

lemma next_task_sim:
  assumes "list_all2 sim (items q1) (items q2)"
  shows "fst (next_task now q1) = fst (next_task now' q2) \<and>
         list_all2 sim (items (snd (next_task now q1))) (items (snd (next_task now' q2)))"
  using lease_scan_sim[OF assms, of now now'] assms
  by (auto simp: next_task_def option.rel_sel split: option.splits)

lemma submit_sim_self: "list_all2 sim (items q) (items (snd (submit_answer t out ts tf q)))"
  by (auto simp: submit_answer_def Let_def list_all2_conv_all_nth nth_list_update sim_def
      split: option.splits if_splits)

lemma list_all2_sim_trans:
  "list_all2 sim xs ys \<Longrightarrow> list_all2 sim ys zs \<Longrightarrow> list_all2 sim xs zs"
  using list_all2_trans[of sim sim sim xs ys zs] sim_trans by blast

lemma list_all2_sim_sym: "list_all2 sim xs ys \<Longrightarrow> list_all2 sim ys xs"
  by (simp add: list_all2_conv_all_nth sim_sym)

lemma submit_sim:
  assumes "list_all2 sim (items q1) (items q2)"
  shows "list_all2 sim (items (snd (submit_answer t out ts tf q1)))
           (items (snd (submit_answer t' out' ts' tf' q2)))"
  by (rule list_all2_sim_trans[OF list_all2_sim_sym[OF submit_sim_self]
        list_all2_sim_trans[OF assms submit_sim_self]])

lemma run_sim:
  "list_all2 sim (items q1) (items q2) \<Longrightarrow>
   lease_views (responses ops q1) = lease_views (responses ops q2)"
proof (induction ops arbitrary: q1 q2)
  case Nil
  then show ?case by simp
next
  case (Cons a ops)
  show ?case
  proof (cases a)
    case (Lease now)
    from next_task_sim[OF Cons.prems, of now now] Cons.IH Lease show ?thesis by simp
  next
    case (Submit t out ts tf)
    from submit_sim[OF Cons.prems, of t out ts tf t out ts tf] Cons.IH Submit show ?thesis by simp
  qed
qed

lemma init_sim:
  "map hide_answer specs1 = map hide_answer specs2 \<Longrightarrow>
   list_all2 sim (items (init_queue specs1 g1)) (items (init_queue specs2 g2))"
proof -
  assume h: "map hide_answer specs1 = map hide_answer specs2"
  then have len: "length specs1 = length specs2" by (metis length_map)
  have "hide_answer (specs1 ! i) = hide_answer (specs2 ! i)" if "i < length specs1" for i
    using h that len by (metis nth_map)
  with len show ?thesis
    by (simp add: init_queue_def list_all2_conv_all_nth new_item_def sim_def nth_enumerate_eq)
qed

text \<open>
  Claim C5. Two fresh queues whose specifications agree except for the answer
  references return the same views to the leases of any run, whatever their grading
  callbacks are; and the view of a successful lease is made of the item's id and of the id,
  instruction, input reference and metadata of its specification, the five fields of
  \<open>task_view\<close>.
\<close>

theorem lease_view_hides_answer:
  "(map hide_answer specs1 = map hide_answer specs2 \<longrightarrow>
      lease_views (responses ops (init_queue specs1 g1)) =
      lease_views (responses ops (init_queue specs2 g2))) \<and>
   (let n = length (takeWhile (\<lambda>it. status it \<noteq> Pending) (items q)) in
    n < length (items q) \<longrightarrow>
      fst (next_task now q) =
        Some \<lparr>view_task_id = item_id (items q ! n), view_id = spec_id (spec (items q ! n)),
              view_instruction = instruction (spec (items q ! n)),
              view_input = input_path (spec (items q ! n)),
              view_meta = meta (spec (items q ! n))\<rparr>)"
  using run_sim[OF init_sim[of specs1 specs2 g1 g2], of ops]
  by (auto simp: next_task_def lease_scan_eq Let_def view_of_def)

theorem lease_view_hides_answer_witness:
  "map hide_answer demo_specs = map hide_answer demo_specs' \<and>
   demo_specs \<noteq> demo_specs' \<and>
   lease_views (responses demo_ops (init_queue demo_specs None)) =
   lease_views (responses demo_ops (init_queue demo_specs' (Some (\<lambda>s p. Aborts)))) \<and>
   fst (next_task 1 (init_queue demo_specs None)) =
     Some \<lparr>view_task_id = 0, view_id = ''t1'', view_instruction = JStr ''do X'',
           view_input = Some ''/d/in1.csv'', view_meta = []\<rparr>"
  using lease_view_hides_answer[of demo_specs demo_specs' demo_ops None "Some (\<lambda>s p. Aborts)"
      "init_queue demo_specs None" 1]
  by (simp add: demo_specs'_def hide_answer_def demo_specs_def init_queue_def new_item_def)

text \<open>
  Claim C3. A submit with a task id out of range raises \<open>ValueError\<close>, a submit for an
  item whose status is not \<open>in_progress\<close> (pending, or completed already) raises
  \<open>RuntimeError\<close>; in both cases the whole queue state (every item's status, time stamps
  and result, the counter, the in-progress set, the result files) is the one before the call.
\<close>

theorem submit_rejected_leaves_queue:
  "(task_id < 0 \<or> int (length (items q)) \<le> task_id \<longrightarrow>
      submit_answer task_id out t_sub t_fin q = (Inl (ValueError task_id), q)) \<and>
   (0 \<le> task_id \<and> task_id < int (length (items q)) \<and>
    status (items q ! nat task_id) \<noteq> InProgress \<longrightarrow>
      submit_answer task_id out t_sub t_fin q =
        (Inl (RuntimeError task_id (status (items q ! nat task_id))), q))"
  by (auto simp: submit_answer_def Let_def)

theorem submit_rejected_leaves_queue_witness:
  "submit_answer 5 (Some ''o.csv'') 1 2 (init_queue demo_specs None) =
     (Inl (ValueError 5), init_queue demo_specs None) \<and>
   submit_answer 0 (Some ''o.csv'') 1 2 (init_queue demo_specs None) =
     (Inl (RuntimeError 0 Pending), init_queue demo_specs None) \<and>
   submit_answer 0 (Some ''o.csv'') 5 6
       (snd (step (Submit 0 None 3 4) (snd (step (Lease 1) (init_queue demo_specs None))))) =
     (Inl (RuntimeError 0 Completed),
      snd (step (Submit 0 None 3 4) (snd (step (Lease 1) (init_queue demo_specs None)))))"
  using submit_rejected_leaves_queue[of 5 "init_queue demo_specs None" "Some ''o.csv''" 1 2]
    submit_rejected_leaves_queue[of 0 "init_queue demo_specs None" "Some ''o.csv''" 1 2]
    submit_rejected_leaves_queue[of 0
      "snd (step (Submit 0 None 3 4) (snd (step (Lease 1) (init_queue demo_specs None))))"
      "Some ''o.csv''" 5 6]
  by (simp add: demo_simps)

text \<open>
  Claim C6. When a submit for an item in progress calls the grading callback (a callback
  is configured and the output reference \<open>s\<close> is not empty) and the callback raises an
  exception (one that \<open>except Exception\<close> catches, with text \<open>msg\<close>), the call returns an
  acknowledgement: its grade is the dict with \<open>status\<close> \<open>grading_error\<close> and \<open>error\<close>
  \<open>msg\<close>, its counts are the incremented counter and the number of items; the item is
  completed, and the record kept on the item and written to the result file carries the
  same grade, the ids, the text of \<open>Path(s)\<close> and the submission time.
\<close>

theorem grading_exception_absorbed:
  assumes "0 \<le> task_id" and "task_id < int (length (items q))"
    and "status (items q ! nat task_id) = InProgress"
    and "grader q = Some f" and "out = Some s" and "s \<noteq> []"
    and "f (spec (items q ! nat task_id)) (path_str s) = Raises msg"
  shows "\<exists>a q' r. submit_answer task_id out t_sub t_fin q = (Inr a, q') \<and>
           ack_ok a \<and>
           ack_grade a = Some [(''status'', JStr ''grading_error''), (''error'', JStr msg)] \<and>
           ack_completed a = completed q + 1 \<and> ack_completed a = completed q' \<and>
           ack_total a = length (items q) \<and>
           status (items q' ! nat task_id) = Completed \<and>
           finished_at (items q' ! nat task_id) = Some t_fin \<and>
           result (items q' ! nat task_id) = Some r \<and>
           results_dir q' (result_file (item_id (items q ! nat task_id))) = Some r \<and>
           rec_grade r = Some [(''status'', JStr ''grading_error''), (''error'', JStr msg)] \<and>
           rec_task_id r = item_id (items q ! nat task_id) \<and>
           rec_spec_id r = spec_id (spec (items q ! nat task_id)) \<and>
           rec_output_path r = Some (path_str s) \<and> rec_submitted_at r = t_sub"
  using assms
  by (simp add: submit_answer_def Let_def run_grader_def p_out_of_def or_none_def
      grading_error_def mark_completed_def)

lemma result_file_0: "result_file 0 = ''task_00000.json''"
  by code_simp

lemma path_str_dot_o_csv: "path_str ''./o.csv'' = ''o.csv''"
  by code_simp

theorem grading_exception_absorbed_witness:
  "fst (submit_answer 0 (Some ''./o.csv'') 2 3
          (snd (next_task 1 (init_queue demo_specs (Some failing_grader))))) =
     Inr \<lparr>ack_ok = True,
           ack_grade = Some [(''status'', JStr ''grading_error''), (''error'', JStr ''boom'')],
           ack_completed = 1, ack_total = 2\<rparr> \<and>
   map status (items (snd (submit_answer 0 (Some ''./o.csv'') 2 3
      (snd (next_task 1 (init_queue demo_specs (Some failing_grader))))))) = [Completed, Pending] \<and>
   completed (snd (submit_answer 0 (Some ''./o.csv'') 2 3
      (snd (next_task 1 (init_queue demo_specs (Some failing_grader)))))) = 1 \<and>
   results_dir (snd (submit_answer 0 (Some ''./o.csv'') 2 3
      (snd (next_task 1 (init_queue demo_specs (Some failing_grader)))))) ''task_00000.json'' =
     Some \<lparr>rec_task_id = 0, rec_spec_id = ''t1'', rec_output_path = Some ''o.csv'',
           rec_grade = Some [(''status'', JStr ''grading_error''), (''error'', JStr ''boom'')],
           rec_submitted_at = 2\<rparr> \<and>
   result (items (snd (submit_answer 0 (Some ''./o.csv'') 2 3
      (snd (next_task 1 (init_queue demo_specs (Some failing_grader)))))) ! 0) =
     Some \<lparr>rec_task_id = 0, rec_spec_id = ''t1'', rec_output_path = Some ''o.csv'',
           rec_grade = Some [(''status'', JStr ''grading_error''), (''error'', JStr ''boom'')],
           rec_submitted_at = 2\<rparr>"
  using grading_exception_absorbed[of 0 "snd (next_task 1 (init_queue demo_specs (Some failing_grader)))"
      failing_grader "Some ''./o.csv''" "''./o.csv''" "''boom''" 2 3]
  by (simp add: demo_simps failing_grader_def result_file_0 path_str_dot_o_csv)

text \<open>
  Claim C10. For a submit on an item in progress: when no callback is configured, or no
  output reference is given (none, or the empty string), or the callback returns the empty
  dict, the grade of the acknowledgement and of the record kept and written is \<open>None\<close>.
  With no output reference the callback is not called: the call does what it does with no
  callback, whatever callback \<open>g\<close> is configured, even one that would not return.
\<close>

theorem empty_grade_is_null:
  assumes "0 \<le> task_id" and "task_id < int (length (items q))"
    and "status (items q ! nat task_id) = InProgress"
  shows "(grader q = None \<or> p_out_of out = None \<or>
          (\<exists>f p. grader q = Some f \<and> p_out_of out = Some p \<and>
                 f (spec (items q ! nat task_id)) p = Returns []) \<longrightarrow>
          (\<exists>a q' r. submit_answer task_id out t_sub t_fin q = (Inr a, q') \<and>
             ack_grade a = None \<and> result (items q' ! nat task_id) = Some r \<and>
             results_dir q' (result_file (item_id (items q ! nat task_id))) = Some r \<and>
             rec_grade r = None)) \<and>
         (p_out_of out = None \<longrightarrow>
            fst (submit_answer task_id out t_sub t_fin (q\<lparr>grader := g\<rparr>)) =
              fst (submit_answer task_id out t_sub t_fin (q\<lparr>grader := None\<rparr>)) \<and>
            snd (submit_answer task_id out t_sub t_fin (q\<lparr>grader := g\<rparr>)) =
              (snd (submit_answer task_id out t_sub t_fin (q\<lparr>grader := None\<rparr>)))\<lparr>grader := g\<rparr>)"
  using assms
  by (auto simp: submit_answer_def Let_def run_grader_def or_none_def mark_completed_def
      split: option.splits)

theorem empty_grade_is_null_witness:
  "fst (submit_answer 0 (Some ''o.csv'') 2 3 (snd (next_task 1 (init_queue demo_specs None)))) =
     Inr \<lparr>ack_ok = True, ack_grade = None, ack_completed = 1, ack_total = 2\<rparr> \<and>
   fst (submit_answer 0 (Some '''') 2 3 (snd (next_task 1 (init_queue demo_specs (Some failing_grader))))) =
     Inr \<lparr>ack_ok = True, ack_grade = None, ack_completed = 1, ack_total = 2\<rparr> \<and>
   fst (submit_answer 0 None 2 3 (snd (next_task 1 (init_queue demo_specs (Some (\<lambda>s p. Aborts)))))) =
     Inr \<lparr>ack_ok = True, ack_grade = None, ack_completed = 1, ack_total = 2\<rparr> \<and>
   fst (submit_answer 0 (Some ''o.csv'') 2 3 (snd (next_task 1 (init_queue demo_specs (Some empty_grader))))) =
     Inr \<lparr>ack_ok = True, ack_grade = None, ack_completed = 1, ack_total = 2\<rparr> \<and>
   map_option rec_grade (result (items (snd (submit_answer 0 (Some ''o.csv'') 2 3
      (snd (next_task 1 (init_queue demo_specs (Some empty_grader)))))) ! 0)) = Some None"
  using empty_grade_is_null[of 0 "snd (next_task 1 (init_queue demo_specs None))" "Some ''o.csv''" 2 3 None]
    empty_grade_is_null[of 0 "snd (next_task 1 (init_queue demo_specs (Some failing_grader)))" "Some ''''" 2 3 None]
    empty_grade_is_null[of 0 "snd (next_task 1 (init_queue demo_specs (Some empty_grader)))" "Some ''o.csv''" 2 3 None]
  by (simp add: demo_simps empty_grader_def failing_grader_def)

lemma view_of_lease [simp]: "view_of (lease now it) = view_of it"
  by (simp add: view_of_def)

text \<open>
  Claim C2. With \<open>n\<close> the number of leading items that are not pending, \<open>next_task\<close>
  returns \<open>None\<close> and changes nothing when \<open>n\<close> is the length of the list (no pending
  item is left); otherwise item \<open>n\<close> is the first pending item in declared order, its view
  is returned, exactly that item becomes \<open>in_progress\<close> with the lease time stamped, and
  its id joins the in-progress set. In every run of leases and submits on a fresh queue,
  in the order in which the calls took the lock, no task id is handed out twice.
\<close>

theorem lease_first_pending_exclusive:
  "next_task now q =
     (let n = length (takeWhile (\<lambda>it. status it \<noteq> Pending) (items q)) in
      if n = length (items q) then (None, q)
      else (Some (view_of (items q ! n)),
            q\<lparr>items := (items q)[n := (items q ! n)\<lparr>status := InProgress, started_at := Some now\<rparr>],
              in_progress := insert (item_id (items q ! n)) (in_progress q)\<rparr>)) \<and>
   distinct (leased_ids (responses ops (init_queue specs g)))"
proof
  show "next_task now q =
     (let n = length (takeWhile (\<lambda>it. status it \<noteq> Pending) (items q)) in
      if n = length (items q) then (None, q)
      else (Some (view_of (items q ! n)),
            q\<lparr>items := (items q)[n := (items q ! n)\<lparr>status := InProgress, started_at := Some now\<rparr>],
              in_progress := insert (item_id (items q ! n)) (in_progress q)\<rparr>))"
    by (simp add: next_task_def lease_scan_eq Let_def) (simp add: lease_def)
  have "distinct (map item_id (items (init_queue specs g)))" by (simp add: init_ids)
  from leased_ids_run[OF this] show "distinct (leased_ids (responses ops (init_queue specs g)))"
    by simp
qed

theorem lease_first_pending_exclusive_witness:
  "fst (next_task 10 (init_queue demo_specs None)) =
     Some \<lparr>view_task_id = 0, view_id = ''t1'', view_instruction = JStr ''do X'',
           view_input = Some ''/d/in1.csv'', view_meta = []\<rparr> \<and>
   map status (items (snd (next_task 10 (init_queue demo_specs None)))) = [InProgress, Pending] \<and>
   distinct (leased_ids (responses [Lease 10, Lease 11, Lease 12] (init_queue demo_specs None))) \<and>
   leased_ids (responses [Lease 10, Lease 11, Lease 12] (init_queue demo_specs None)) = [0, 1]"
  using lease_first_pending_exclusive[of 10 "init_queue demo_specs None"
      "[Lease 10, Lease 11, Lease 12]" demo_specs None]
  by (simp add: demo_simps)

section \<open>Properties of the manifest reader\<close>

lemma maybe_rel_ok:
  "path_field_ok v \<Longrightarrow>
   maybe_rel rel r v =
     Inr (case v of JStr p \<Rightarrow> if p = [] then None else Some (if is_absolute p then path_str p else rel r p)
          | _ \<Rightarrow> None)"
  by (cases v) (auto simp: maybe_rel_def path_field_ok_def)

lemma py_str_or:
  "py_str other (py_or a (py_or b (JStr c))) =
     (if truthy a then py_str other a else if truthy b then py_str other b else c)"
  by (simp add: py_or_def py_str_def)

lemma parse_records_props:
  "list_all record_ok raw \<Longrightarrow>
   \<exists>specs. parse_records other rel r raw out = Inr specs \<and>
     length specs = length out + length raw \<and> take (length out) specs = out \<and>
     (\<forall>i<length raw. \<forall>d. raw ! i = JObj d \<longrightarrow>
        record_props other rel r (length out + i) d (specs ! (length out + i)))"
proof (induction raw arbitrary: out)
  case Nil
  then show ?case by simp
next
  case (Cons t raw)
  from Cons.prems have okt: "record_ok t" and rest: "list_all record_ok raw" by simp_all
  from okt obtain d where t: "t = JObj d"
    and ok: "path_field_ok (dict_get d ''input'')" "path_field_ok (dict_get d ''answer'')"
    by (cases t) (auto simp: record_ok_def)
  define tid where "tid = py_str other
     (py_or (dict_get d ''id'') (py_or (dict_get d ''name'') (JStr (''task-'' @ str_nat (length out + 1)))))"
  define s where "s = \<lparr>spec_id = tid,
     instruction = py_or (dict_get d ''instruction'') (JStr (default_instruction tid)),
     input_path = (case dict_get d ''input'' of
           JStr p \<Rightarrow> if p = [] then None else Some (if is_absolute p then path_str p else rel r p)
         | _ \<Rightarrow> None),
     answer_path = (case dict_get d ''answer'' of
           JStr p \<Rightarrow> if p = [] then None else Some (if is_absolute p then path_str p else rel r p)
         | _ \<Rightarrow> None),
     meta = filter (\<lambda>kv. fst kv \<notin> set reserved_keys) d\<rparr>"
  have step: "parse_records other rel r (t # raw) out = parse_records other rel r raw (out @ [s])"
    by (simp add: t Let_def maybe_rel_ok[OF ok(1)] maybe_rel_ok[OF ok(2)] s_def tid_def)
  have props: "record_props other rel r (length out) d s"
    by (simp add: record_props_def s_def tid_def py_str_or) (simp add: py_or_def)
  from Cons.IH[OF rest, of "out @ [s]"] obtain specs where
    sp: "parse_records other rel r raw (out @ [s]) = Inr specs"
      "length specs = length (out @ [s]) + length raw"
      "take (length (out @ [s])) specs = out @ [s]"
      "\<forall>i<length raw. \<forall>d. raw ! i = JObj d \<longrightarrow>
         record_props other rel r (length (out @ [s]) + i) d (specs ! (length (out @ [s]) + i))"
    by blast
  have "take (length out) (take (length (out @ [s])) specs) = take (length out) (out @ [s])"
    by (simp only: sp(3))
  then have tk: "take (length out) specs = out" by simp
  have "take (length (out @ [s])) specs ! length out = (out @ [s]) ! length out"
    by (simp only: sp(3))
  then have at: "specs ! length out = s" by simp
  have "record_props other rel r (length out + i) d' (specs ! (length out + i))"
    if "i < length (t # raw)" "(t # raw) ! i = JObj d'" for i d'
  proof (cases i)
    case 0
    with that t at props show ?thesis by simp
  next
    case (Suc j)
    with that sp(4) show ?thesis by simp
  qed
  with step sp(1,2) tk show ?case by auto
qed

lemma truthy_falsy: "truthy v \<longleftrightarrow> \<not> falsy v"
  by (cases v) auto

lemma dict_get_unset: "\<not> truthy (dict_get d k) \<longleftrightarrow> unset d k"
  by (simp add: dict_get_def truthy_falsy split: option.splits)

lemma dict_get_set: "map_of d k = Some v \<Longrightarrow> dict_get d k = v"
  by (simp add: dict_get_def)

lemma unset_path:
  "unset d k \<Longrightarrow>
   (case dict_get d k of
      JStr p \<Rightarrow> if p = [] then None else Some (if is_absolute p then path_str p else rel r p)
    | _ \<Rightarrow> None) = None"
  by (cases "map_of d k") (auto simp: dict_get_def split: json.splits)

lemma is_absolute_hd: "p \<noteq> [] \<Longrightarrow> is_absolute p = (hd p = CHR ''/'')"
  by (cases p) (simp_all add: is_absolute_def)

lemma set_truthy: "map_of d k = Some v \<Longrightarrow> \<not> falsy v \<Longrightarrow> truthy (dict_get d k)"
  by (simp add: dict_get_set truthy_falsy)

lemma py_str_JStr: "py_str other (JStr t) = t"
  by (simp add: py_str_def)

lemma record_props_id:
  assumes "record_props other rel r i d s"
  shows "(\<forall>v. map_of d ''id'' = Some v \<and> \<not> falsy v \<longrightarrow> spec_id s = py_str other v) \<and>
         (unset d ''id'' \<longrightarrow>
            (\<forall>v. map_of d ''name'' = Some v \<and> \<not> falsy v \<longrightarrow> spec_id s = py_str other v)) \<and>
         (unset d ''id'' \<and> unset d ''name'' \<longrightarrow> spec_id s = ''task-'' @ str_nat (i + 1))"
proof -
  from assms have A: "spec_id s =
        (if truthy (dict_get d ''id'') then py_str other (dict_get d ''id'')
         else if truthy (dict_get d ''name'') then py_str other (dict_get d ''name'')
         else ''task-'' @ str_nat (i + 1))"
    by (simp only: record_props_def)
  have 1: "spec_id s = py_str other v" if "map_of d ''id'' = Some v" "\<not> falsy v" for v
    using A set_truthy[OF that] dict_get_set[OF that(1)] by (simp only: if_True)
  have 2: "spec_id s = py_str other v"
    if "unset d ''id''" "map_of d ''name'' = Some v" "\<not> falsy v" for v
  proof -
    from that(1) have "\<not> truthy (dict_get d ''id'')" by (simp only: dict_get_unset)
    with A set_truthy[OF that(2,3)] dict_get_set[OF that(2)] show ?thesis
      by (simp only: if_True if_False)
  qed
  have 3: "spec_id s = ''task-'' @ str_nat (i + 1)" if "unset d ''id''" "unset d ''name''"
  proof -
    from that have "\<not> truthy (dict_get d ''id'')" "\<not> truthy (dict_get d ''name'')"
      by (simp_all only: dict_get_unset)
    with A show ?thesis by (simp only: if_False)
  qed
  from 1 2 3 show ?thesis by blast
qed

lemma record_props_instruction:
  assumes "record_props other rel r i d s"
  shows "(\<forall>v. map_of d ''instruction'' = Some v \<and> \<not> falsy v \<longrightarrow> instruction s = v) \<and>
         (unset d ''instruction'' \<longrightarrow>
            instruction s =
              JStr (''Run benchmark task '' @ [CHR 0x27] @ spec_id s @ [CHR 0x27] @ ''.''))"
proof -
  from assms have B: "instruction s =
        (if truthy (dict_get d ''instruction'') then dict_get d ''instruction''
         else JStr (default_instruction (spec_id s)))"
    by (simp only: record_props_def)
  have 1: "instruction s = v" if "map_of d ''instruction'' = Some v" "\<not> falsy v" for v
    using B set_truthy[OF that] dict_get_set[OF that(1)] by (simp only: if_True)
  have 2: "instruction s =
              JStr (''Run benchmark task '' @ [CHR 0x27] @ spec_id s @ [CHR 0x27] @ ''.'')"
    if "unset d ''instruction''"
  proof -
    from that have "\<not> truthy (dict_get d ''instruction'')" by (simp only: dict_get_unset)
    with B show ?thesis by (simp only: if_False default_instruction_def)
  qed
  from 1 2 show ?thesis by blast
qed

lemma record_props_paths:
  assumes "record_props other rel r i d s"
  shows "(unset d ''input'' \<longrightarrow> input_path s = None) \<and>
         (\<forall>p. map_of d ''input'' = Some (JStr p) \<and> p \<noteq> [] \<longrightarrow>
            input_path s = Some (if hd p = CHR ''/'' then path_str p else rel r p)) \<and>
         (unset d ''answer'' \<longrightarrow> answer_path s = None) \<and>
         (\<forall>p. map_of d ''answer'' = Some (JStr p) \<and> p \<noteq> [] \<longrightarrow>
            answer_path s = Some (if hd p = CHR ''/'' then path_str p else rel r p)) \<and>
         meta s =
           filter (\<lambda>kv. fst kv \<notin> {''id'', ''name'', ''instruction'', ''input'', ''answer''}) d"
proof -
  from assms have C: "input_path s =
        (case dict_get d ''input'' of
           JStr p \<Rightarrow> if p = [] then None else Some (if is_absolute p then path_str p else rel r p)
         | _ \<Rightarrow> None)"
    and D: "answer_path s =
        (case dict_get d ''answer'' of
           JStr p \<Rightarrow> if p = [] then None else Some (if is_absolute p then path_str p else rel r p)
         | _ \<Rightarrow> None)"
    and E: "meta s = filter (\<lambda>kv. fst kv \<notin> set reserved_keys) d"
    by (simp_all only: record_props_def)
  have 1: "input_path s = None" if "unset d ''input''"
    using C unset_path[OF that] by simp
  have 2: "input_path s = Some (if hd p = CHR ''/'' then path_str p else rel r p)"
    if "map_of d ''input'' = Some (JStr p)" "p \<noteq> []" for p
    using C dict_get_set[OF that(1)] that(2) by (simp add: is_absolute_hd)
  have 3: "answer_path s = None" if "unset d ''answer''"
    using D unset_path[OF that] by simp
  have 4: "answer_path s = Some (if hd p = CHR ''/'' then path_str p else rel r p)"
    if "map_of d ''answer'' = Some (JStr p)" "p \<noteq> []" for p
    using D dict_get_set[OF that(1)] that(2) by (simp add: is_absolute_hd)
  have 5: "meta s =
           filter (\<lambda>kv. fst kv \<notin> {''id'', ''name'', ''instruction'', ''input'', ''answer''}) d"
    using E by (simp add: reserved_keys_def)
  from 1 2 3 4 5 show ?thesis by blast
qed


lemma record_props_explicit:
  assumes "record_props other rel r i d (specs ! i)"
  shows "(\<forall>v. map_of d ''id'' = Some v \<and> \<not> falsy v \<longrightarrow>
                    spec_id (specs ! i) = py_str other v) \<and>
               (\<forall>t. map_of d ''id'' = Some (JStr t) \<and> t \<noteq> [] \<longrightarrow> spec_id (specs ! i) = t) \<and>
               (unset d ''id'' \<longrightarrow>
                  (\<forall>v. map_of d ''name'' = Some v \<and> \<not> falsy v \<longrightarrow>
                       spec_id (specs ! i) = py_str other v) \<and>
                  (\<forall>t. map_of d ''name'' = Some (JStr t) \<and> t \<noteq> [] \<longrightarrow>
                       spec_id (specs ! i) = t)) \<and>
               (unset d ''id'' \<and> unset d ''name'' \<longrightarrow>
                  spec_id (specs ! i) = ''task-'' @ str_nat (i + 1)) \<and>
               (\<forall>v. map_of d ''instruction'' = Some v \<and> \<not> falsy v \<longrightarrow>
                    instruction (specs ! i) = v) \<and>
               (unset d ''instruction'' \<longrightarrow>
                  instruction (specs ! i) =
                    JStr (''Run benchmark task '' @ [CHR 0x27] @ spec_id (specs ! i) @
                          [CHR 0x27] @ ''.'')) \<and>
               (unset d ''input'' \<longrightarrow> input_path (specs ! i) = None) \<and>
               (\<forall>p. map_of d ''input'' = Some (JStr p) \<and> p \<noteq> [] \<longrightarrow>
                    input_path (specs ! i) =
                      Some (if hd p = CHR ''/'' then path_str p else rel r p)) \<and>
               (unset d ''answer'' \<longrightarrow> answer_path (specs ! i) = None) \<and>
               (\<forall>p. map_of d ''answer'' = Some (JStr p) \<and> p \<noteq> [] \<longrightarrow>
                    answer_path (specs ! i) =
                      Some (if hd p = CHR ''/'' then path_str p else rel r p)) \<and>
               meta (specs ! i) =
                 filter (\<lambda>kv. fst kv \<notin> {''id'', ''name'', ''instruction'', ''input'', ''answer''})
                   d"
proof -
  note I = record_props_id[OF assms]
  note N = record_props_instruction[OF assms]
  note P = record_props_paths[OF assms]
  have v1: "spec_id (specs ! i) = t" if "map_of d ''id'' = Some (JStr t)" "t \<noteq> []" for t
  proof -
    from that(2) have "\<not> falsy (JStr t)" by simp
    with I that(1) have "spec_id (specs ! i) = py_str other (JStr t)" by blast
    then show ?thesis by (simp only: py_str_JStr)
  qed
  have v2: "spec_id (specs ! i) = t"
    if "unset d ''id''" "map_of d ''name'' = Some (JStr t)" "t \<noteq> []" for t
  proof -
    from that(3) have "\<not> falsy (JStr t)" by simp
    with I that(1,2) have "spec_id (specs ! i) = py_str other (JStr t)" by blast
    then show ?thesis by (simp only: py_str_JStr)
  qed
  show ?thesis
    apply (intro conjI)
    subgoal using I by blast
    subgoal using v1 by blast
    subgoal using I v2 by blast
    subgoal using I by blast
    subgoal using N by blast
    subgoal using N by blast
    subgoal using P by blast
    subgoal using P by blast
    subgoal using P by blast
    subgoal using P by blast
    subgoal using P by blast
    done
qed

text \<open>
  Claim C9, as the code has it. For a manifest whose records are dicts with string or
  falsy input and answer fields, given as a bare list or under the key \<open>tasks\<close>, the
  reader returns one task per record, in order. For the record at position \<open>i\<close>
  (counted from 0): its id is \<open>str\<close> of the value under \<open>id\<close> when that key is set,
  and a string is taken verbatim; else the same of the value under \<open>name\<close>; else
  \<open>task-\<close> followed by \<open>i + 1\<close>. Its instruction is the value under \<open>instruction\<close>
  when set, else the text \<open>Run benchmark task\<close>, the id in single quotes and a full
  stop. An unset input or answer gives no reference; a string gives \<open>Path\<close> of it when
  it starts with a slash and its resolution under the dataset root otherwise. The other
  keys make the metadata. The manifest \<open>[{"id": "t1", "instruction": "do X"}]\<close> gives
  one task with id \<open>t1\<close>, instruction \<open>do X\<close> and no references.
\<close>

theorem manifest_record_to_task:
  assumes "list_all record_ok raw"
  shows "(\<exists>specs. parse_tasks other rel (JList raw) r = Inr specs \<and>
            parse_tasks other rel (JObj [(''tasks'', JList raw)]) r = Inr specs \<and>
            length specs = length raw \<and>
            (\<forall>i<length raw. \<forall>d. raw ! i = JObj d \<longrightarrow>
               (\<forall>v. map_of d ''id'' = Some v \<and> \<not> falsy v \<longrightarrow>
                    spec_id (specs ! i) = py_str other v) \<and>
               (\<forall>t. map_of d ''id'' = Some (JStr t) \<and> t \<noteq> [] \<longrightarrow> spec_id (specs ! i) = t) \<and>
               (unset d ''id'' \<longrightarrow>
                  (\<forall>v. map_of d ''name'' = Some v \<and> \<not> falsy v \<longrightarrow>
                       spec_id (specs ! i) = py_str other v) \<and>
                  (\<forall>t. map_of d ''name'' = Some (JStr t) \<and> t \<noteq> [] \<longrightarrow>
                       spec_id (specs ! i) = t)) \<and>
               (unset d ''id'' \<and> unset d ''name'' \<longrightarrow>
                  spec_id (specs ! i) = ''task-'' @ str_nat (i + 1)) \<and>
               (\<forall>v. map_of d ''instruction'' = Some v \<and> \<not> falsy v \<longrightarrow>
                    instruction (specs ! i) = v) \<and>
               (unset d ''instruction'' \<longrightarrow>
                  instruction (specs ! i) =
                    JStr (''Run benchmark task '' @ [CHR 0x27] @ spec_id (specs ! i) @
                          [CHR 0x27] @ ''.'')) \<and>
               (unset d ''input'' \<longrightarrow> input_path (specs ! i) = None) \<and>
               (\<forall>p. map_of d ''input'' = Some (JStr p) \<and> p \<noteq> [] \<longrightarrow>
                    input_path (specs ! i) =
                      Some (if hd p = CHR ''/'' then path_str p else rel r p)) \<and>
               (unset d ''answer'' \<longrightarrow> answer_path (specs ! i) = None) \<and>
               (\<forall>p. map_of d ''answer'' = Some (JStr p) \<and> p \<noteq> [] \<longrightarrow>
                    answer_path (specs ! i) =
                      Some (if hd p = CHR ''/'' then path_str p else rel r p)) \<and>
               meta (specs ! i) =
                 filter (\<lambda>kv. fst kv \<notin> {''id'', ''name'', ''instruction'', ''input'', ''answer''})
                   d)) \<and>
         parse_tasks other rel (JList [JObj [(''id'', JStr ''t1''), (''instruction'', JStr ''do X'')]]) r =
           Inr [\<lparr>spec_id = ''t1'', instruction = JStr ''do X'', input_path = None,
                 answer_path = None, meta = []\<rparr>]"
proof
  from parse_records_props[OF assms, of other rel r "[]"] obtain specs where
    sp: "parse_records other rel r raw [] = Inr specs" "length specs = length raw"
      "\<forall>i<length raw. \<forall>d. raw ! i = JObj d \<longrightarrow> record_props other rel r i d (specs ! i)"
    by auto
  have "parse_tasks other rel (JList raw) r = Inr specs"
    "parse_tasks other rel (JObj [(''tasks'', JList raw)]) r = Inr specs"
    using sp(1) by (simp_all add: parse_tasks_def)
  moreover note sp(2)
  moreover have "\<forall>i<length raw. \<forall>d. raw ! i = JObj d \<longrightarrow>
               (\<forall>v. map_of d ''id'' = Some v \<and> \<not> falsy v \<longrightarrow>
                    spec_id (specs ! i) = py_str other v) \<and>
               (\<forall>t. map_of d ''id'' = Some (JStr t) \<and> t \<noteq> [] \<longrightarrow> spec_id (specs ! i) = t) \<and>
               (unset d ''id'' \<longrightarrow>
                  (\<forall>v. map_of d ''name'' = Some v \<and> \<not> falsy v \<longrightarrow>
                       spec_id (specs ! i) = py_str other v) \<and>
                  (\<forall>t. map_of d ''name'' = Some (JStr t) \<and> t \<noteq> [] \<longrightarrow>
                       spec_id (specs ! i) = t)) \<and>
               (unset d ''id'' \<and> unset d ''name'' \<longrightarrow>
                  spec_id (specs ! i) = ''task-'' @ str_nat (i + 1)) \<and>
               (\<forall>v. map_of d ''instruction'' = Some v \<and> \<not> falsy v \<longrightarrow>
                    instruction (specs ! i) = v) \<and>
               (unset d ''instruction'' \<longrightarrow>
                  instruction (specs ! i) =
                    JStr (''Run benchmark task '' @ [CHR 0x27] @ spec_id (specs ! i) @
                          [CHR 0x27] @ ''.'')) \<and>
               (unset d ''input'' \<longrightarrow> input_path (specs ! i) = None) \<and>
               (\<forall>p. map_of d ''input'' = Some (JStr p) \<and> p \<noteq> [] \<longrightarrow>
                    input_path (specs ! i) =
                      Some (if hd p = CHR ''/'' then path_str p else rel r p)) \<and>
               (unset d ''answer'' \<longrightarrow> answer_path (specs ! i) = None) \<and>
               (\<forall>p. map_of d ''answer'' = Some (JStr p) \<and> p \<noteq> [] \<longrightarrow>
                    answer_path (specs ! i) =
                      Some (if hd p = CHR ''/'' then path_str p else rel r p)) \<and>
               meta (specs ! i) =
                 filter (\<lambda>kv. fst kv \<notin> {''id'', ''name'', ''instruction'', ''input'', ''answer''})
                   d"
  proof (intro allI impI)
    fix i d
    assume "i < length raw" "raw ! i = JObj d"
    with sp(3) have "record_props other rel r i d (specs ! i)" by blast
    from record_props_explicit[OF this] show "(\<forall>v. map_of d ''id'' = Some v \<and> \<not> falsy v \<longrightarrow>
                    spec_id (specs ! i) = py_str other v) \<and>
               (\<forall>t. map_of d ''id'' = Some (JStr t) \<and> t \<noteq> [] \<longrightarrow> spec_id (specs ! i) = t) \<and>
               (unset d ''id'' \<longrightarrow>
                  (\<forall>v. map_of d ''name'' = Some v \<and> \<not> falsy v \<longrightarrow>
                       spec_id (specs ! i) = py_str other v) \<and>
                  (\<forall>t. map_of d ''name'' = Some (JStr t) \<and> t \<noteq> [] \<longrightarrow>
                       spec_id (specs ! i) = t)) \<and>
               (unset d ''id'' \<and> unset d ''name'' \<longrightarrow>
                  spec_id (specs ! i) = ''task-'' @ str_nat (i + 1)) \<and>
               (\<forall>v. map_of d ''instruction'' = Some v \<and> \<not> falsy v \<longrightarrow>
                    instruction (specs ! i) = v) \<and>
               (unset d ''instruction'' \<longrightarrow>
                  instruction (specs ! i) =
                    JStr (''Run benchmark task '' @ [CHR 0x27] @ spec_id (specs ! i) @
                          [CHR 0x27] @ ''.'')) \<and>
               (unset d ''input'' \<longrightarrow> input_path (specs ! i) = None) \<and>
               (\<forall>p. map_of d ''input'' = Some (JStr p) \<and> p \<noteq> [] \<longrightarrow>
                    input_path (specs ! i) =
                      Some (if hd p = CHR ''/'' then path_str p else rel r p)) \<and>
               (unset d ''answer'' \<longrightarrow> answer_path (specs ! i) = None) \<and>
               (\<forall>p. map_of d ''answer'' = Some (JStr p) \<and> p \<noteq> [] \<longrightarrow>
                    answer_path (specs ! i) =
                      Some (if hd p = CHR ''/'' then path_str p else rel r p)) \<and>
               meta (specs ! i) =
                 filter (\<lambda>kv. fst kv \<notin> {''id'', ''name'', ''instruction'', ''input'', ''answer''})
                   d" .
  qed
  ultimately show "\<exists>specs. parse_tasks other rel (JList raw) r = Inr specs \<and>
            parse_tasks other rel (JObj [(''tasks'', JList raw)]) r = Inr specs \<and>
            length specs = length raw \<and>
            (\<forall>i<length raw. \<forall>d. raw ! i = JObj d \<longrightarrow>
               (\<forall>v. map_of d ''id'' = Some v \<and> \<not> falsy v \<longrightarrow>
                    spec_id (specs ! i) = py_str other v) \<and>
               (\<forall>t. map_of d ''id'' = Some (JStr t) \<and> t \<noteq> [] \<longrightarrow> spec_id (specs ! i) = t) \<and>
               (unset d ''id'' \<longrightarrow>
                  (\<forall>v. map_of d ''name'' = Some v \<and> \<not> falsy v \<longrightarrow>
                       spec_id (specs ! i) = py_str other v) \<and>
                  (\<forall>t. map_of d ''name'' = Some (JStr t) \<and> t \<noteq> [] \<longrightarrow>
                       spec_id (specs ! i) = t)) \<and>
               (unset d ''id'' \<and> unset d ''name'' \<longrightarrow>
                  spec_id (specs ! i) = ''task-'' @ str_nat (i + 1)) \<and>
               (\<forall>v. map_of d ''instruction'' = Some v \<and> \<not> falsy v \<longrightarrow>
                    instruction (specs ! i) = v) \<and>
               (unset d ''instruction'' \<longrightarrow>
                  instruction (specs ! i) =
                    JStr (''Run benchmark task '' @ [CHR 0x27] @ spec_id (specs ! i) @
                          [CHR 0x27] @ ''.'')) \<and>
               (unset d ''input'' \<longrightarrow> input_path (specs ! i) = None) \<and>
               (\<forall>p. map_of d ''input'' = Some (JStr p) \<and> p \<noteq> [] \<longrightarrow>
                    input_path (specs ! i) =
                      Some (if hd p = CHR ''/'' then path_str p else rel r p)) \<and>
               (unset d ''answer'' \<longrightarrow> answer_path (specs ! i) = None) \<and>
               (\<forall>p. map_of d ''answer'' = Some (JStr p) \<and> p \<noteq> [] \<longrightarrow>
                    answer_path (specs ! i) =
                      Some (if hd p = CHR ''/'' then path_str p else rel r p)) \<and>
               meta (specs ! i) =
                 filter (\<lambda>kv. fst kv \<notin> {''id'', ''name'', ''instruction'', ''input'', ''answer''})
                   d)"
    by blast
  show "parse_tasks other rel (JList [JObj [(''id'', JStr ''t1''), (''instruction'', JStr ''do X'')]]) r =
           Inr [\<lparr>spec_id = ''t1'', instruction = JStr ''do X'', input_path = None,
                 answer_path = None, meta = []\<rparr>]"
    by (simp add: parse_tasks_def Let_def dict_get_def py_or_def py_str_def maybe_rel_def
        reserved_keys_def)
qed

lemma str_nat_1: "str_nat (Suc 0) = ''1''"
  by code_simp

lemma str_nat_2: "str_nat (Suc (Suc 0)) = ''2''"
  by code_simp

text \<open>
  Claim C9 as stated fails where a field is present and falsy: the id \<open>0\<close> and the
  empty id give the placeholders, and the empty instruction gives the template.
\<close>

theorem present_id_replaced_by_placeholder:
  "parse_tasks (\<lambda>v. []) join
     (JList [JObj [(''id'', JInt 0), (''instruction'', JStr ''do X'')],
             JObj [(''id'', JStr []), (''instruction'', JStr [])]]) ''/d'' =
   Inr [\<lparr>spec_id = ''task-1'', instruction = JStr ''do X'', input_path = None,
         answer_path = None, meta = []\<rparr>,
        \<lparr>spec_id = ''task-2'',
         instruction = JStr (''Run benchmark task '' @ [CHR 0x27] @ ''task-2'' @ [CHR 0x27] @ ''.''),
         input_path = None, answer_path = None, meta = []\<rparr>]"
  by (simp add: parse_tasks_def Let_def dict_get_def py_or_def py_str_def maybe_rel_def
        reserved_keys_def str_nat_1 str_nat_2 default_instruction_def)

lemma str_nat_3: "str_nat (Suc (Suc (Suc 0))) = ''3''"
  by code_simp

lemma str_int_7: "str_int 7 = ''7''"
  by code_simp

lemma path_str_abs_b: "path_str ''/abs//b.xlsx'' = ''/abs/b.xlsx''"
  by code_simp

theorem manifest_record_to_task_witness:
  "list_all record_ok demo_manifest \<and>
   parse_tasks (\<lambda>v. []) join (JList demo_manifest) ''/d'' =
     Inr [\<lparr>spec_id = ''t1'', instruction = JStr ''do X'', input_path = None,
           answer_path = None, meta = []\<rparr>,
          \<lparr>spec_id = ''n2'',
           instruction = JStr (''Run benchmark task '' @ [CHR 0x27] @ ''n2'' @ [CHR 0x27] @ ''.''),
           input_path = Some ''/d/in/a.xlsx'', answer_path = Some ''/abs/b.xlsx'',
           meta = [(''level'', JInt 3)]\<rparr>,
          \<lparr>spec_id = ''task-3'',
           instruction = JStr (''Run benchmark task '' @ [CHR 0x27] @ ''task-3'' @ [CHR 0x27] @ ''.''),
           input_path = None, answer_path = None, meta = []\<rparr>,
          \<lparr>spec_id = ''7'',
           instruction = JStr (''Run benchmark task '' @ [CHR 0x27] @ ''7'' @ [CHR 0x27] @ ''.''),
           input_path = None, answer_path = None, meta = []\<rparr>]"
proof -
  have ok: "list_all record_ok demo_manifest"
    by (simp add: demo_manifest_def record_ok_def path_field_ok_def dict_get_def)
  have "parse_tasks (\<lambda>v. []) join (JList demo_manifest) ''/d'' =
     Inr [\<lparr>spec_id = ''t1'', instruction = JStr ''do X'', input_path = None,
           answer_path = None, meta = []\<rparr>,
          \<lparr>spec_id = ''n2'',
           instruction = JStr (''Run benchmark task '' @ [CHR 0x27] @ ''n2'' @ [CHR 0x27] @ ''.''),
           input_path = Some ''/d/in/a.xlsx'', answer_path = Some ''/abs/b.xlsx'',
           meta = [(''level'', JInt 3)]\<rparr>,
          \<lparr>spec_id = ''task-3'',
           instruction = JStr (''Run benchmark task '' @ [CHR 0x27] @ ''task-3'' @ [CHR 0x27] @ ''.''),
           input_path = None, answer_path = None, meta = []\<rparr>,
          \<lparr>spec_id = ''7'',
           instruction = JStr (''Run benchmark task '' @ [CHR 0x27] @ ''7'' @ [CHR 0x27] @ ''.''),
           input_path = None, answer_path = None, meta = []\<rparr>]"
    by (simp add: demo_manifest_def parse_tasks_def Let_def dict_get_def py_or_def py_str_def
        maybe_rel_def reserved_keys_def str_nat_3 is_absolute_def join_def str_int_7
        path_str_abs_b default_instruction_def)
  with ok manifest_record_to_task[OF ok, of "\<lambda>v. []" join "''/d''"] show ?thesis by blast
qed

section \<open>Properties of the checkout and of the archive extraction\<close>













lemma loc_output_dir: "loc_of ''/data/datasets'' = [''data'', ''datasets'']"
  by code_simp

lemma loc_tmp: "loc_of ''/tmp/arena_x'' = [''tmp'', ''arena_x'']"
  by code_simp

lemma loc_work: "loc_of (join ''/tmp/arena_x'' ''work'') = [''tmp'', ''arena_x'', ''work'']"
  by code_simp

lemma loc_repo: "loc_of (join ''/tmp/arena_x'' ''repo'') = [''tmp'', ''arena_x'', ''repo'']"
  by code_simp

lemma loc_repo_tasks:
  "loc_of (join ''/tmp/arena_x'' ''repo/tasks.json'') = [''tmp'', ''arena_x'', ''repo'', ''tasks.json'']"
  by code_simp

lemma loc_work_tasks:
  "loc_of (join (join ''/tmp/arena_x'' ''work'') ''tasks.json'') =
     [''tmp'', ''arena_x'', ''work'', ''tasks.json'']"
  by code_simp

lemma resolve_basic:
  "resolve (join ''/data/datasets'' ''benchmark-tasks/basic'') = ''/data/datasets/benchmark-tasks/basic''"
  by code_simp

lemma resolve_broken:
  "resolve (join ''/data/datasets'' ''benchmark-tasks/broken'') = ''/data/datasets/benchmark-tasks/broken''"
  by code_simp

lemma resolve_leaky:
  "resolve (join ''/data/datasets'' ''benchmark-tasks/leaky'') = ''/data/datasets/benchmark-tasks/leaky''"
  by code_simp

lemma loc_basic:
  "loc_of ''/data/datasets/benchmark-tasks/basic'' = [''data'', ''datasets'', ''benchmark-tasks'', ''basic'']"
  by code_simp

lemma loc_broken:
  "loc_of ''/data/datasets/benchmark-tasks/broken'' = [''data'', ''datasets'', ''benchmark-tasks'', ''broken'']"
  by code_simp

lemma loc_leaky:
  "loc_of ''/data/datasets/benchmark-tasks/leaky'' = [''data'', ''datasets'', ''benchmark-tasks'', ''leaky'']"
  by code_simp

lemma loc_leaky_tasks:
  "loc_of (join (join ''/tmp/arena_x'' ''work'') ''/data/datasets/benchmark-tasks/leaky/tasks.json'') =
     [''data'', ''datasets'', ''benchmark-tasks'', ''leaky'', ''tasks.json'']"
  by code_simp

lemma loc_leaky_parent:
  "loc_of (path_parent (join (join ''/tmp/arena_x'' ''work'')
       ''/data/datasets/benchmark-tasks/leaky/tasks.json'')) =
     [''data'', ''datasets'', ''benchmark-tasks'', ''leaky'']"
  by code_simp

lemma loc_parent_basic:
  "loc_of (path_parent ''/data/datasets/benchmark-tasks/basic'') = [''data'', ''datasets'', ''benchmark-tasks'']"
  by code_simp

lemmas demo_locs = loc_output_dir loc_tmp loc_work loc_repo loc_repo_tasks loc_work_tasks
  resolve_basic resolve_broken resolve_leaky loc_basic loc_broken loc_leaky loc_leaky_tasks
  loc_leaky_parent loc_parent_basic

lemmas demo_checkout = checkout_one_def staging_def demo_env_def demo_env_no_clone_def
  demo_registry_def demo_source_def dict_get_def load_dataset_config_def subscript_def
  dict_get_default_def fetch_source_def apply_transforms_def py_iter_def apply_step_def
  t_move_def t_rename_def path_arg_def demo_fetch_def demo_copytree_def demo_move_def Let_def

lemmas demo_fs = exists_path_def ensure_dir_def rmtree_def safe_rmtree_def mkdtemp_def graft_def
  demo_disk_def demo_disk_empty_def








text \<open>
  Claim C1 at a failing input. The member \<open>../work_evil/x.txt\<close> of an archive extracted
  into \<open>/tmp/arena_x/work\<close> resolves to a path in the sibling directory
  \<open>work_evil\<close>, outside the destination; its text starts with the text of the
  destination, so neither \<open>_safe_untar\<close> nor \<open>_safe_unzip\<close> raises and the archive
  is handed to \<open>extractall\<close>.
\<close>

theorem prefix_check_accepts_sibling:
  "resolve (join ''/tmp/arena_x/work'' ''../work_evil/x.txt'') = ''/tmp/arena_x/work_evil/x.txt'' \<and>
   \<not> inside ''/tmp/arena_x/work'' (resolve (join ''/tmp/arena_x/work'' ''../work_evil/x.txt'')) \<and>
   safe_untar extractall [(''../work_evil/x.txt'', c)] ''/tmp/arena_x/work'' fs =
     Inr (extractall ''/tmp/arena_x/work'' [(''../work_evil/x.txt'', c)] fs) \<and>
   safe_unzip extractall [(''../work_evil/x.txt'', c)] ''/tmp/arena_x/work'' fs =
     Inr (extractall ''/tmp/arena_x/work'' [(''../work_evil/x.txt'', c)] fs)"
proof -
  have 1: "resolve (join ''/tmp/arena_x/work'' ''../work_evil/x.txt'') = ''/tmp/arena_x/work_evil/x.txt''"
    by code_simp
  have 2: "resolve ''/tmp/arena_x/work'' = ''/tmp/arena_x/work''"
    by code_simp
  have 3: "\<not> inside ''/tmp/arena_x/work'' ''/tmp/arena_x/work_evil/x.txt''"
    by code_simp
  show ?thesis
    by (simp add: 1 2 3 safe_untar_def safe_unzip_def startswith_def)
qed

section \<open>Further properties\<close>

text \<open>
  The extraction functions are all or nothing with respect to their own test: when every
  member passes it the whole archive is handed to \<open>extractall\<close>, and when one fails
  it the call raises and \<open>extractall\<close> is not called.
\<close>

lemma check_members_ok:
  "list_all (\<lambda>n. startswith (resolve (join dest n)) (resolve dest)) names \<Longrightarrow>
   check_members what dest names = Inr ()"
  by (induction names) auto

lemma check_members_bad:
  "\<not> list_all (\<lambda>n. startswith (resolve (join dest n)) (resolve dest)) names \<Longrightarrow>
   \<exists>n \<in> set names. check_members what dest names =
      Inl (RuntimeErr (''Unsafe '' @ what @ '' member path: '' @ n))"
  by (induction names) auto

theorem extraction_all_or_nothing:
  "(list_all (text_ok dest) tf \<longrightarrow>
      safe_untar extractall tf dest fs = Inr (extractall dest tf fs) \<and>
      safe_unzip extractall tf dest fs = Inr (extractall dest tf fs)) \<and>
   (\<not> list_all (text_ok dest) tf \<longrightarrow>
      (\<exists>n. safe_untar extractall tf dest fs = Inl (RuntimeErr (''Unsafe tar member path: '' @ n))) \<and>
      (\<exists>n. safe_unzip extractall tf dest fs = Inl (RuntimeErr (''Unsafe zip member path: '' @ n))))"
proof -
  have eq: "list_all (text_ok dest) tf =
        list_all (\<lambda>n. startswith (resolve (join dest n)) (resolve dest)) (map fst tf)"
    by (simp add: list_all_iff text_ok_def)
  show ?thesis
  proof (cases "list_all (text_ok dest) tf")
    case True
    with eq check_members_ok[of dest "map fst tf"] show ?thesis
      by (simp add: safe_untar_def safe_unzip_def)
  next
    case False
    with eq have b: "\<not> list_all (\<lambda>n. startswith (resolve (join dest n)) (resolve dest)) (map fst tf)"
      by simp
    from check_members_bad[OF b, of "''tar''"] check_members_bad[OF b, of "''zip''"] False
    show ?thesis by (auto simp: safe_untar_def safe_unzip_def)
  qed
qed

lemma resolve_etc: "resolve (join ''/w'' ''../etc/passwd'') = ''/etc/passwd''"
  by code_simp

lemma resolve_a: "resolve (join ''/w'' ''a.txt'') = ''/w/a.txt''"
  by code_simp

lemma resolve_w: "resolve ''/w'' = ''/w''"
  by code_simp

theorem extraction_all_or_nothing_witness:
  "safe_untar (\<lambda>d a fs. map fst a @ fs) [(''a.txt'', ''x'')] ''/w'' [] = Inr [''a.txt''] \<and>
   safe_untar (\<lambda>d a fs. map fst a @ fs) [(''a.txt'', ''x''), (''../etc/passwd'', ''y'')] ''/w'' [] =
     Inl (RuntimeErr ''Unsafe tar member path: ../etc/passwd'')"
  using extraction_all_or_nothing[of "''/w''" "[(''a.txt'', ''x'')]" "\<lambda>d a fs. map fst a @ fs" "[]"]
    extraction_all_or_nothing[of "''/w''" "[(''a.txt'', ''x''), (''../etc/passwd'', ''y'')]"
      "\<lambda>d a fs. map fst a @ fs" "[]"]
  by (simp add: text_ok_def safe_untar_def resolve_etc resolve_a resolve_w startswith_def)

text \<open>
  A step whose type is none of the eight kinds raises \<open>ValueError\<close> and writes nothing;
  the steps before it have run in order, what they wrote stays, and none after it runs.
\<close>

theorem unknown_kind_fails_pipeline:
  assumes "subscript st ''type'' = Inr t" and "t \<notin> JStr ` set known_kinds"
  shows "apply_step env root_dir st s = (Some (ValueErr ''Unknown transform type''), s) \<and>
         apply_transforms env root_dir (JList (pre @ st # post)) s =
           (case apply_transforms env root_dir (JList pre) s of
              (Some e, s') \<Rightarrow> (Some e, s')
            | (None, s') \<Rightarrow> (Some (ValueErr ''Unknown transform type''), s'))"
proof -
  from assms have u: "apply_step env root_dir st s0 = (Some (ValueErr ''Unknown transform type''), s0)" for s0
    by (simp add: apply_step_def known_kinds_def)
  have "apply_steps env root_dir (pre @ st # post) s0 =
          (case apply_steps env root_dir pre s0 of
             (Some e, s') \<Rightarrow> (Some e, s')
           | (None, s') \<Rightarrow> (Some (ValueErr ''Unknown transform type''), s'))" for s0
    by (induction pre arbitrary: s0) (auto simp: u split: prod.splits option.splits)
  with u show ?thesis by (simp add: apply_transforms_def py_iter_def)
qed

theorem unknown_kind_fails_pipeline_witness:
  "apply_transforms demo_env ''/tmp/arena_x/work''
     (JList [JObj [(''type'', JStr ''unzip'')], JObj [(''type'', JStr ''gunzip'')],
             JObj [(''type'', JStr ''delete'')]]) demo_disk =
   (Some (ValueErr ''Unknown transform type''), demo_disk)"
proof -
  have 1: "subscript (JObj [(''type'', JStr ''gunzip'')]) ''type'' = Inr (JStr ''gunzip'')"
    by (simp add: subscript_def)
  have 2: "JStr ''gunzip'' \<notin> JStr ` set known_kinds"
    by (simp add: known_kinds_def)
  from unknown_kind_fails_pipeline[OF 1 2, of demo_env "''/tmp/arena_x/work''" demo_disk
      "[JObj [(''type'', JStr ''unzip'')]]" "[JObj [(''type'', JStr ''delete'')]]"]
  show ?thesis
    by (simp add: apply_transforms_def py_iter_def apply_step_def subscript_def demo_env_def)
qed

text \<open>
  A run that succeeds: with \<open>update\<close> set, the dataset \<open>basic\<close> is fetched, copied,
  transformed and moved to the destination, where the fetched \<open>tasks.json\<close> replaces the
  one installed before; the temporary directory is gone and the neighbouring dataset is
  as it was.
\<close>

theorem checkout_installs_dataset:
  "fst (checkout_one demo_env ''benchmark-tasks/basic'' ''/data/datasets'' True demo_disk) =
     Inr ''/data/datasets/benchmark-tasks/basic'' \<and>
   snd (checkout_one demo_env ''benchmark-tasks/basic'' ''/data/datasets'' True demo_disk)
     [''data'', ''datasets'', ''benchmark-tasks'', ''basic'', ''tasks.json''] = Some (File ''[]'') \<and>
   snd (checkout_one demo_env ''benchmark-tasks/basic'' ''/data/datasets'' True demo_disk)
     [''data'', ''datasets'', ''benchmark-tasks'', ''broken'', ''old.csv''] = Some (File ''old'') \<and>
   snd (checkout_one demo_env ''benchmark-tasks/basic'' ''/data/datasets'' True demo_disk)
     [''tmp'', ''arena_x''] = None \<and>
   snd (checkout_one demo_env ''benchmark-tasks/basic'' ''/data/datasets'' True demo_disk)
     [''tmp'', ''arena_x'', ''work'', ''tasks.json''] = None"
  by (simp add: demo_checkout demo_locs demo_fs)

text \<open>
  The first lease of a fresh queue returns task id 0; the submit of \<open>out.csv\<close> with a
  callback that returns a score of 1 raises the counter to 1 and writes a record whose grade
  has that score.
\<close>

lemma path_str_out_csv: "path_str ''out.csv'' = ''out.csv''"
  by code_simp

theorem lease_then_graded_submit:
  "fst (next_task 1 (init_queue demo_specs (Some score_grader))) =
     Some \<lparr>view_task_id = 0, view_id = ''t1'', view_instruction = JStr ''do X'',
           view_input = Some ''/d/in1.csv'', view_meta = []\<rparr> \<and>
   fst (submit_answer 0 (Some ''out.csv'') 2 3
          (snd (next_task 1 (init_queue demo_specs (Some score_grader))))) =
     Inr \<lparr>ack_ok = True, ack_grade = Some [(''score'', JInt 1)], ack_completed = 1, ack_total = 2\<rparr> \<and>
   results_dir (snd (submit_answer 0 (Some ''out.csv'') 2 3
          (snd (next_task 1 (init_queue demo_specs (Some score_grader)))))) ''task_00000.json'' =
     Some \<lparr>rec_task_id = 0, rec_spec_id = ''t1'', rec_output_path = Some ''out.csv'',
           rec_grade = Some [(''score'', JInt 1)], rec_submitted_at = 2\<rparr>"
  by (simp add: demo_simps score_grader_def result_file_0 path_str_out_csv)

text \<open>
  In every state of a run on a fresh queue the counter is the number of completed
  items: it equals the number of items exactly when every item is completed.
\<close>

lemma trace_counted: "counted q \<Longrightarrow> list_all counted (trace ops q)"
  by (induction ops arbitrary: q) (simp_all add: step_counted)

theorem counter_counts_completed:
  "list_all (counter_agrees (length specs)) (trace ops (init_queue specs g))"
proof -
  have "counter_agrees (length specs) s" if "s \<in> set (trace ops (init_queue specs g))" for s
  proof -
    from trace_counted[OF counted_init, of ops specs g] that have c: "counted s"
      by (simp add: list_all_iff)
    from trace_bounded[OF counted_init, of specs g ops] that
    have l: "length (items s) = length specs" by (simp add: list_all_iff length_init_items)
    have "length (filter (\<lambda>it. status it = Completed) (items s)) < length (items s)"
      if "\<not> list_all (\<lambda>it. status it = Completed) (items s)"
      using that by (auto simp: list_all_iff intro: length_filter_less)
    moreover have "length (filter (\<lambda>it. status it = Completed) (items s)) = length (items s)"
      if "list_all (\<lambda>it. status it = Completed) (items s)"
      using that by (simp add: list_all_iff)
    ultimately show ?thesis using c l
      by (auto simp: counted_def completed_count_def counter_agrees_def)
  qed
  then show ?thesis by (simp add: list_all_iff)
qed

theorem counter_counts_completed_witness:
  "map completed_count (trace demo_ops (init_queue demo_specs None)) = [0, 0, 1, 1, 1, 1] \<and>
   list_all (counter_agrees 2) (trace demo_ops (init_queue demo_specs None)) \<and>
   counter_agrees 2 (snd (step (Submit 1 None 8 9) (last (trace demo_ops (init_queue demo_specs None))))) \<and>
   completed_count (snd (step (Submit 1 None 8 9) (last (trace demo_ops (init_queue demo_specs None))))) = 2"
  using counter_counts_completed[of demo_specs demo_ops None]
    counter_counts_completed[of demo_specs "demo_ops @ [Submit 1 None 8 9]" None]
  by (simp add: demo_simps demo_ops_def completed_count_def counter_agrees_def)

end
